theory Spec2Isabelle
  imports Complex_Main "HOL-Library.Sublist" "HOL-Library.AList"
begin

section \<open>Python values, exceptions and strings\<close>

text \<open>
  The program is one Python module, \<^verbatim>\<open>lamda_function.py\<close>: a fetcher that walks a
  repository through the hosting API, an analyzer/remediator that sends every file to a
  hosted model, a publisher that writes a branch, and the handler that runs the three in
  sequence. Every value that flows through it is a decoded JSON value or a string, so one
  datatype holds them. Numbers are integers here (no float is ever computed with), a
  Python \<^verbatim>\<open>str\<close> is a list of 8-bit characters, and a \<^verbatim>\<open>dict\<close> is an association list
  whose first binding of a key is the one that is read.
\<close>

datatype json =
    JNull
  | JBool bool
  | JNum int
  | JStr string
  | JArr "json list"
  | JObj "(string \<times> json) list"

text \<open>
  The exceptions the module can see. All of them are subclasses of \<^verbatim>\<open>Exception\<close>;
  \<open>OtherError cls msg\<close> stands for whatever the libraries raise (a connection error of
  \<^verbatim>\<open>requests\<close>, a \<^verbatim>\<open>ClientError\<close> of \<^verbatim>\<open>botocore\<close>, a JSON decoding error).
\<close>

datatype exn =
    KeyError string
  | TypeError string
  | AttributeError string
  | ValueError string
  | HTTPError nat
  | UnboundLocalError string
  | OtherError string string

definition quote :: "char" where
  "quote = CHR 0x27"

definition backtick :: "char" where
  "backtick = CHR 0x60"

text \<open>
  \<^verbatim>\<open>str(e)\<close>: a \<^verbatim>\<open>KeyError\<close> prints the \<^verbatim>\<open>repr\<close> of its key, the others their message.
  The messages of this theory are shortened (Python names the types and the URL in
  them); no property below depends on their wording but for the one of \<open>repo_path_of\<close>.
\<close>

fun str_exn :: "exn \<Rightarrow> string" where
  "str_exn (KeyError k) = [quote] @ k @ [quote]"
| "str_exn (TypeError m) = m"
| "str_exn (AttributeError m) = m"
| "str_exn (ValueError m) = m"
| "str_exn (HTTPError code) = ''HTTP status error''"
| "str_exn (UnboundLocalError v) = ''local variable referenced before assignment: '' @ v"
| "str_exn (OtherError cls m) = m"

fun is_KeyError :: "exn \<Rightarrow> bool" where
  "is_KeyError (KeyError k) = True"
| "is_KeyError e = False"

subsection \<open>Operations on values\<close>

text \<open>\<^verbatim>\<open>v[k]\<close> for a string key \<open>k\<close>.\<close>

fun py_getitem :: "json \<Rightarrow> string \<Rightarrow> exn + json" where
  "py_getitem (JObj kvs) k =
     (case map_of kvs k of Some v \<Rightarrow> Inr v | None \<Rightarrow> Inl (KeyError k))"
| "py_getitem (JArr xs) k = Inl (TypeError ''list indices must be integers or slices, not str'')"
| "py_getitem (JStr s) k = Inl (TypeError ''string indices must be integers'')"
| "py_getitem v k = Inl (TypeError ''object is not subscriptable'')"

text \<open>\<^verbatim>\<open>v.get(k, default)\<close>: only a dict has the method.\<close>

fun py_get :: "json \<Rightarrow> string \<Rightarrow> json \<Rightarrow> exn + json" where
  "py_get (JObj kvs) k dflt = (case map_of kvs k of Some v \<Rightarrow> Inr v | None \<Rightarrow> Inr dflt)"
| "py_get v k dflt = Inl (AttributeError ''object has no attribute get'')"

text \<open>
  \<^verbatim>\<open>for x in v\<close>: a list yields its elements, a dict its keys, a string its characters
  (each a string of length one); nothing else can be iterated.
\<close>

fun py_iter :: "json \<Rightarrow> exn + json list" where
  "py_iter (JArr xs) = Inr xs"
| "py_iter (JObj kvs) = Inr (map (\<lambda>kv. JStr (fst kv)) kvs)"
| "py_iter (JStr s) = Inr (map (\<lambda>c. JStr [c]) s)"
| "py_iter v = Inl (TypeError ''object is not iterable'')"

text \<open>The truth value of a value, as \<^verbatim>\<open>and\<close> and \<^verbatim>\<open>if\<close> take it.\<close>

fun py_truthy :: "json \<Rightarrow> bool" where
  "py_truthy JNull = False"
| "py_truthy (JBool b) = b"
| "py_truthy (JNum n) = (n \<noteq> 0)"
| "py_truthy (JStr s) = (s \<noteq> [])"
| "py_truthy (JArr xs) = (xs \<noteq> [])"
| "py_truthy (JObj kvs) = (kvs \<noteq> [])"

text \<open>
  \<^verbatim>\<open>name in v\<close> for a string \<open>name\<close>: membership in a list, a key of a dict, a
  contiguous substring of a string.
\<close>

fun py_contains :: "json \<Rightarrow> string \<Rightarrow> exn + bool" where
  "py_contains (JArr xs) name = Inr (JStr name \<in> set xs)"
| "py_contains (JObj kvs) name = Inr (name \<in> fst ` set kvs)"
| "py_contains (JStr s) name = Inr (sublist name s)"
| "py_contains v name = Inl (TypeError ''argument is not iterable'')"

text \<open>A key of a dict must be hashable: a list or a dict is not.\<close>

fun hashable :: "json \<Rightarrow> bool" where
  "hashable (JArr xs) = False"
| "hashable (JObj kvs) = False"
| "hashable v = True"

text \<open>
  \<^verbatim>\<open>d[k] = v\<close> on a dict in insertion order: an existing key keeps its place and takes
  the new value, a new key goes to the end.
\<close>

definition dict_set :: "(json \<times> 'v) list \<Rightarrow> json \<Rightarrow> 'v \<Rightarrow> exn + (json \<times> 'v) list" where
  "dict_set d k v =
     (if hashable k then Inr (AList.update k v d) else Inl (TypeError ''unhashable type''))"

text \<open>\<^verbatim>\<open>d.update(other)\<close>: the bindings of \<open>other\<close> are stored one by one, in its order.\<close>

definition dict_update :: "('k \<times> 'v) list \<Rightarrow> ('k \<times> 'v) list \<Rightarrow> ('k \<times> 'v) list" where
  "dict_update d other = fold (\<lambda>kv acc. AList.update (fst kv) (snd kv) acc) other d"

subsection \<open>Strings\<close>

text \<open>\<^verbatim>\<open>s.endswith(e)\<close>: the last \<open>length e\<close> characters of \<open>s\<close> are \<open>e\<close>.\<close>

definition endswith :: "string \<Rightarrow> string \<Rightarrow> bool" where
  "endswith s e = (length e \<le> length s \<and> drop (length s - length e) s = e)"

text \<open>
  Whitespace as \<^verbatim>\<open>str.strip()\<close> sees it among the code points below 256: tab to
  carriage return, the four separators 28 to 31, the space, NEL and the no-break space.
\<close>

definition is_space :: "char \<Rightarrow> bool" where
  "is_space c =
     (let n = (of_char c :: nat)
      in (9 \<le> n \<and> n \<le> 13) \<or> (28 \<le> n \<and> n \<le> 32) \<or> n = 133 \<or> n = 160)"

definition strip :: "string \<Rightarrow> string" where
  "strip s = rev (dropWhile is_space (rev (dropWhile is_space s)))"

text \<open>\<^verbatim>\<open>s.strip('/')\<close>.\<close>

definition strip_slash :: "string \<Rightarrow> string" where
  "strip_slash s =
     rev (dropWhile (\<lambda>c. c = CHR ''/'') (rev (dropWhile (\<lambda>c. c = CHR ''/'') s)))"

text \<open>\<^verbatim>\<open>s.split("/")[-1]\<close>: what follows the last slash, all of \<open>s\<close> if it has none.\<close>

definition last_segment :: "string \<Rightarrow> string" where
  "last_segment s = rev (takeWhile (\<lambda>c. c \<noteq> CHR ''/'') (rev s))"

text \<open>\<^verbatim>\<open>sep.join(xs)\<close>.\<close>

fun join :: "string \<Rightarrow> string list \<Rightarrow> string" where
  "join sep [] = []"
| "join sep [x] = x"
| "join sep (x # y # ys) = x @ sep @ join sep (y # ys)"

section \<open>The outside world\<close>

text \<open>
  The module talks to two services: the hosting API, through \<^verbatim>\<open>requests\<close>, and the
  model, through \<^verbatim>\<open>bedrock.invoke_model\<close>. Neither is part of the repository, so both
  are parameters. A call is answered as a function of the calls made so far and of the
  request: this covers every deterministic server with a state of its own, and the
  history is at the same time the record of what the program has sent.

  An f-string that builds an endpoint is kept as the endpoint's constructor applied to
  the values interpolated, in the order of the source text:
  \<^item> \<open>ContentsUrl repo_path path branch\<close> is \<^verbatim>\<open>repos/{repo_path}/contents/{path}?ref={branch}\<close>,
  \<^item> \<open>RefUrl repo_path name\<close> is \<^verbatim>\<open>repos/{repo_path}/git/refs/heads/{name}\<close>,
  \<^item> \<open>RefsUrl\<close>, \<open>BlobsUrl\<close>, \<open>TreesUrl\<close>, \<open>CommitsUrl\<close> are the four collections under
    \<^verbatim>\<open>repos/{repo_path}/git/\<close>,
  \<^item> \<open>TreeUrl repo_path sha\<close> is \<^verbatim>\<open>repos/{repo_path}/git/trees/{sha}\<close>,
  \<^item> \<open>RawUrl v\<close> is an item's \<^verbatim>\<open>download_url\<close>, passed on as it came.
  The headers are the same in every call and are left out.
\<close>

datatype http_verb = GET | POST | PATCH

datatype url =
    ContentsUrl string json json
  | RefUrl string json
  | RefsUrl string
  | BlobsUrl string
  | TreeUrl string json
  | TreesUrl string
  | CommitsUrl string
  | RawUrl json

record http_request =
  verb :: http_verb
  url :: url
  payload :: "json option"

text \<open>
  Of a response the module reads \<^verbatim>\<open>status_code\<close>, \<^verbatim>\<open>.text\<close> and \<^verbatim>\<open>.json()\<close>; the
  last one raises when the body is not JSON.
\<close>

record http_response =
  status_code :: nat
  resp_text :: string
  json_body :: "exn + json"

text \<open>The body of an \<^verbatim>\<open>invoke_model\<close> call; model id and content types are constants.\<close>

record model_request =
  prompt :: string
  max_tokens_to_sample :: nat
  temperature :: rat
  top_k :: nat
  top_p :: rat
  stop_sequences :: "string list"

datatype call = HttpCall http_request | ModelCall model_request

type_synonym history = "call list"

text \<open>
  \<open>bedrock\<close> answers with \<^verbatim>\<open>json.loads(response['body'].read())\<close>, or with the exception
  raised on the way there. Two functions of the standard library are parameters as well:
  \<open>urlparse_path s\<close> is \<^verbatim>\<open>urlparse(s).path\<close> for a string \<open>s\<close>, and \<open>b64encode s\<close> is
  \<^verbatim>\<open>base64.b64encode(s.encode()).decode()\<close>.
\<close>

record env =
  http :: "history \<Rightarrow> http_request \<Rightarrow> exn + http_response"
  bedrock :: "history \<Rightarrow> model_request \<Rightarrow> exn + json"
  urlparse_path :: "string \<Rightarrow> exn + string"
  b64encode :: "string \<Rightarrow> string"

definition requests :: "env \<Rightarrow> http_request \<Rightarrow> history \<Rightarrow> (exn + http_response) \<times> history" where
  "requests env req h = (http env h req, h @ [HttpCall req])"

definition invoke_model :: "env \<Rightarrow> model_request \<Rightarrow> history \<Rightarrow> (exn + json) \<times> history" where
  "invoke_model env req h = (bedrock env h req, h @ [ModelCall req])"

text \<open>\<^verbatim>\<open>response.raise_for_status()\<close> raises for a status from 400 to 599.\<close>

definition raise_for_status :: "http_response \<Rightarrow> exn + unit" where
  "raise_for_status r =
     (if 400 \<le> status_code r \<and> status_code r < 600 then Inl (HTTPError (status_code r))
      else Inr ())"

text \<open>
  \<^verbatim>\<open>urlparse(repo_link).path.strip('/')\<close>. Given a value that is not a string,
  \<^verbatim>\<open>urlparse\<close> takes it for bytes: a truthy one fails at \<^verbatim>\<open>decode\<close>, and for a falsy one
  (\<^verbatim>\<open>None\<close> above all) the path is \<^verbatim>\<open>b''\<close>, whose \<^verbatim>\<open>strip\<close> refuses the string \<^verbatim>\<open>'/'\<close>.
\<close>

fun repo_path_of :: "env \<Rightarrow> json \<Rightarrow> exn + string" where
  "repo_path_of env (JStr s) =
     (case urlparse_path env s of Inl e \<Rightarrow> Inl e | Inr p \<Rightarrow> Inr (strip_slash p))"
| "repo_path_of env v =
     (if py_truthy v then Inl (AttributeError ''object has no attribute decode'')
      else Inl (TypeError (''a bytes-like object is required, not '' @ [quote] @ ''str'' @ [quote])))"

section \<open>Analyzer and remediator\<close>

subsection \<open>Issue extraction\<close>

definition issue_patterns :: "string list" where
  "issue_patterns =
     [''potential security vulnerability'', ''code style issue'', ''performance issue'',
      ''code complexity issue'', ''potential bug'']"

text \<open>
  \<^verbatim>\<open>re.findall\<close> of the alternation of the five phrases: scanning from the left, the
  first alternative that matches at a position is taken and the scan goes on behind it.
\<close>

function findall_issues :: "string \<Rightarrow> string list" where
  "findall_issues [] = []"
| "findall_issues (c # cs) =
     (case find (\<lambda>p. prefix p (c # cs)) issue_patterns of
        Some p \<Rightarrow> p # findall_issues (drop (length p) (c # cs))
      | None \<Rightarrow> findall_issues cs)"
  by pat_completeness auto
termination
proof (relation "measure length")
  fix c cs p
  assume "find (\<lambda>p. prefix p (c # cs)) issue_patterns = Some p"
  then have "p \<in> set issue_patterns"
    by (auto simp: find_Some_iff)
  then have "p \<noteq> []"
    by (auto simp: issue_patterns_def)
  then show "(drop (length p) (c # cs), c # cs) \<in> measure length"
    by (cases p) auto
qed auto

text \<open>
  \<^verbatim>\<open>json.loads(...).get('completion', '').strip()\<close>: the completion of a model answer,
  the empty string when the answer has none.
\<close>

definition completion_of :: "json \<Rightarrow> exn + string" where
  "completion_of body =
     (case py_get body ''completion'' (JStr []) of
        Inl e \<Rightarrow> Inl e
      | Inr (JStr s) \<Rightarrow> Inr (strip s)
      | Inr v \<Rightarrow> Inl (AttributeError ''object has no attribute strip''))"

definition analysis_request :: "string \<Rightarrow> model_request" where
  "analysis_request code =
     \<lparr>prompt = ''\<newline>\<newline>Human: Please analyze the following code:\<newline>\<newline>Code:\<newline>''
         @ code @ ''\<newline>\<newline>Assistant:'',
      max_tokens_to_sample = 1000, temperature = 1 / 2, top_k = 50, top_p = 19 / 20,
      stop_sequences = [''\<newline>\<newline>Human:'']\<rparr>"

definition analyze_code :: "env \<Rightarrow> string \<Rightarrow> history \<Rightarrow> (exn + string list) \<times> history" where
  "analyze_code env code h =
     (case invoke_model env (analysis_request code) h of
        (Inl e, h1) \<Rightarrow> (Inl e, h1)
      | (Inr body, h1) \<Rightarrow>
          (case completion_of body of
             Inl e \<Rightarrow> (Inl e, h1)
           | Inr analysis \<Rightarrow> (Inr (findall_issues analysis), h1)))"

subsection \<open>Remediation and its post-processing\<close>

definition fence :: string where
  "fence = [backtick, backtick, backtick]"

definition is_lower :: "char \<Rightarrow> bool" where
  "is_lower c = (97 \<le> (of_char c :: nat) \<and> (of_char c :: nat) \<le> 122)"

text \<open>
  \<^verbatim>\<open>re.sub(r"```[a-z]*", "", s)\<close>: from the left, every three backticks together with
  the lower-case ASCII letters that follow them are deleted; the scan goes on behind
  the deleted text.
\<close>

function re_sub_fence :: "string \<Rightarrow> string" where
  "re_sub_fence [] = []"
| "re_sub_fence (c # cs) =
     (if prefix fence (c # cs)
      then re_sub_fence (dropWhile is_lower (drop 3 (c # cs)))
      else c # re_sub_fence cs)"
  by pat_completeness auto
termination
proof (relation "measure length")
  fix c :: char and cs
  have "length (dropWhile is_lower (drop 3 (c # cs))) \<le> length (drop 3 (c # cs))"
    by (rule length_dropWhile_le)
  then show "(dropWhile is_lower (drop 3 (c # cs)), c # cs) \<in> measure length"
    by simp
qed auto

definition preamble :: string where
  "preamble = ''Here is the fixed code without any additional explanations or summaries:''"

text \<open>
  \<^verbatim>\<open>s.replace(old, "")\<close> for a non-empty \<open>old\<close>: from the left, every occurrence of
  \<open>old\<close> that does not overlap one already taken is deleted.
\<close>

function remove_all :: "string \<Rightarrow> string \<Rightarrow> string" where
  "remove_all old [] = []"
| "remove_all old (c # cs) =
     (if old \<noteq> [] \<and> prefix old (c # cs)
      then remove_all old (drop (length old) (c # cs))
      else c # remove_all old cs)"
  by pat_completeness auto
termination
  by (relation "measure (\<lambda>(old, s). length s)") (auto simp: neq_Nil_conv)

definition remediation_request :: "string \<Rightarrow> string list \<Rightarrow> model_request" where
  "remediation_request code issues =
     \<lparr>prompt = ''\<newline>Human: Please fix the identified issues in the code below and return only the modified code without any explanations, summaries, or code block delimiters.\<newline>\<newline>Code:\<newline>''
         @ code @ ''\<newline>\<newline>Issues identified:\<newline>'' @ join '', '' issues
         @ ''\<newline>\<newline>Assistant:'',
      max_tokens_to_sample = 2000, temperature = 7 / 10, top_k = 50, top_p = 19 / 20,
      stop_sequences = [''\<newline>\<newline>Human:'']\<rparr>"

text \<open>The two clean-up statements that follow the model call.\<close>

definition clean_remediation :: "string \<Rightarrow> string" where
  "clean_remediation completion = strip (remove_all preamble (strip (re_sub_fence completion)))"

definition remediate_code ::
  "env \<Rightarrow> string \<Rightarrow> string list \<Rightarrow> history \<Rightarrow> (exn + string) \<times> history" where
  "remediate_code env code issues h =
     (case invoke_model env (remediation_request code issues) h of
        (Inl e, h1) \<Rightarrow> (Inl e, h1)
      | (Inr body, h1) \<Rightarrow>
          (case completion_of body of
             Inl e \<Rightarrow> (Inl e, h1)
           | Inr remediation \<Rightarrow> (Inr (clean_remediation remediation), h1)))"

subsection \<open>The loop over the files\<close>

text \<open>\<^verbatim>\<open>file_path.endswith(ext)\<close> on values: both have to be strings.\<close>

fun py_endswith :: "json \<Rightarrow> json \<Rightarrow> exn + bool" where
  "py_endswith (JStr s) (JStr e) = Inr (endswith s e)"
| "py_endswith (JStr s) v = Inl (TypeError ''endswith first arg must be str or a tuple of str'')"
| "py_endswith v w = Inl (AttributeError ''object has no attribute endswith'')"

text \<open>\<^verbatim>\<open>any(file_path.endswith(ext) for ext in exts)\<close> stops at the first hit.\<close>

fun any_endswith :: "json \<Rightarrow> json list \<Rightarrow> exn + bool" where
  "any_endswith file_path [] = Inr False"
| "any_endswith file_path (ext # exts) =
     (case py_endswith file_path ext of
        Inl e \<Rightarrow> Inl e
      | Inr True \<Rightarrow> Inr True
      | Inr False \<Rightarrow> any_endswith file_path exts)"

definition is_non_code :: "json \<Rightarrow> json \<Rightarrow> exn + bool" where
  "is_non_code file_path non_code_exts =
     (case py_iter non_code_exts of
        Inl e \<Rightarrow> Inl e
      | Inr exts \<Rightarrow> any_endswith file_path exts)"

type_synonym filemap = "(json \<times> string) list"

fun remediate_items ::
  "env \<Rightarrow> json \<Rightarrow> filemap \<Rightarrow> filemap \<Rightarrow> history \<Rightarrow> (exn + filemap) \<times> history" where
  "remediate_items env non_code_exts [] remediations h = (Inr remediations, h)"
| "remediate_items env non_code_exts ((file_path, file_content) # rest) remediations h =
     (case is_non_code file_path non_code_exts of
        Inl e \<Rightarrow> (Inl e, h)
      | Inr True \<Rightarrow> remediate_items env non_code_exts rest remediations h
      | Inr False \<Rightarrow>
          (case analyze_code env file_content h of
             (Inl e, h1) \<Rightarrow> (Inl e, h1)
           | (Inr issues, h1) \<Rightarrow>
               (case remediate_code env file_content issues h1 of
                  (Inl e, h2) \<Rightarrow> (Inl e, h2)
                | (Inr remediated_code, h2) \<Rightarrow>
                    (case dict_set remediations file_path remediated_code of
                       Inl e \<Rightarrow> (Inl e, h2)
                     | Inr remediations' \<Rightarrow>
                         remediate_items env non_code_exts rest remediations' h2))))"

definition analyze_and_remediate_code ::
  "env \<Rightarrow> filemap \<Rightarrow> json \<Rightarrow> history \<Rightarrow> (exn + filemap) \<times> history" where
  "analyze_and_remediate_code env code_repo non_code_exts h =
     remediate_items env non_code_exts code_repo [] h"

section \<open>Content fetcher\<close>

text \<open>
  \<^verbatim>\<open>fetch_repository_contents\<close> lists one directory and calls itself on every
  subdirectory it does not skip. What it is given next is the hosting API's answer, so
  nothing in the code bounds the descent: the first argument is the number of nested
  calls still allowed, and \<open>None\<close> is the descent that did not come back within it.
  \<open>fetch_items\<close> is the body of the \<^verbatim>\<open>for\<close> loop, with the dict \<^verbatim>\<open>files\<close> built so far.
\<close>

definition get_request :: "url \<Rightarrow> http_request" where
  "get_request u = \<lparr>verb = GET, url = u, payload = None\<rparr>"

text \<open>\<^verbatim>\<open>item["path"].split("/")[-1]\<close>: only a string has \<^verbatim>\<open>split\<close>.\<close>

fun folder_name_of :: "json \<Rightarrow> exn + string" where
  "folder_name_of (JStr p) = Inr (last_segment p)"
| "folder_name_of v = Inl (AttributeError ''object has no attribute split'')"

text \<open>\<^verbatim>\<open>exclude_folders and folder_name in exclude_folders\<close>.\<close>

definition is_excluded :: "json \<Rightarrow> string \<Rightarrow> exn + bool" where
  "is_excluded exclude_folders folder_name =
     (if py_truthy exclude_folders then py_contains exclude_folders folder_name
      else Inr False)"

function (sequential) fetch_repository_contents ::
    "nat \<Rightarrow> env \<Rightarrow> json \<Rightarrow> json \<Rightarrow> json \<Rightarrow> json \<Rightarrow> history
      \<Rightarrow> ((exn + filemap) \<times> history) option"
  and fetch_items ::
    "nat \<Rightarrow> env \<Rightarrow> json \<Rightarrow> json \<Rightarrow> json \<Rightarrow> json list \<Rightarrow> filemap \<Rightarrow> history
      \<Rightarrow> ((exn + filemap) \<times> history) option"
where
  "fetch_repository_contents 0 env repo_link branch path exclude_folders h = None"
| "fetch_repository_contents (Suc depth) env repo_link branch path exclude_folders h =
     (case repo_path_of env repo_link of
        Inl e \<Rightarrow> Some (Inl e, h)
      | Inr repo_path \<Rightarrow>
          (case requests env (get_request (ContentsUrl repo_path path branch)) h of
             (Inl e, h1) \<Rightarrow> Some (Inl e, h1)
           | (Inr response, h1) \<Rightarrow>
               (case raise_for_status response of
                  Inl e \<Rightarrow> Some (Inl e, h1)
                | Inr u \<Rightarrow>
                    (case json_body response of
                       Inl e \<Rightarrow> Some (Inl e, h1)
                     | Inr listing \<Rightarrow>
                         (case py_iter listing of
                            Inl e \<Rightarrow> Some (Inl e, h1)
                          | Inr items \<Rightarrow>
                              fetch_items depth env repo_link branch exclude_folders
                                items [] h1)))))"
| "fetch_items depth env repo_link branch exclude_folders [] files h = Some (Inr files, h)"
| "fetch_items depth env repo_link branch exclude_folders (item # items) files h =
     (case py_getitem item ''type'' of
        Inl e \<Rightarrow> Some (Inl e, h)
      | Inr ty \<Rightarrow>
          if ty = JStr ''dir'' then
            (case py_getitem item ''path'' of
               Inl e \<Rightarrow> Some (Inl e, h)
             | Inr item_path \<Rightarrow>
                 (case folder_name_of item_path of
                    Inl e \<Rightarrow> Some (Inl e, h)
                  | Inr folder_name \<Rightarrow>
                      (case is_excluded exclude_folders folder_name of
                         Inl e \<Rightarrow> Some (Inl e, h)
                       | Inr True \<Rightarrow>
                           fetch_items depth env repo_link branch exclude_folders items files h
                       | Inr False \<Rightarrow>
                           (case fetch_repository_contents depth env repo_link branch
                                   item_path exclude_folders h of
                              None \<Rightarrow> None
                            | Some (Inl e, h1) \<Rightarrow> Some (Inl e, h1)
                            | Some (Inr sub, h1) \<Rightarrow>
                                fetch_items depth env repo_link branch exclude_folders items
                                  (dict_update files sub) h1))))
          else if ty = JStr ''file'' then
            (case py_getitem item ''download_url'' of
               Inl e \<Rightarrow> Some (Inl e, h)
             | Inr download_url \<Rightarrow>
                 (case requests env (get_request (RawUrl download_url)) h of
                    (Inl e, h1) \<Rightarrow> Some (Inl e, h1)
                  | (Inr response, h1) \<Rightarrow>
                      (case py_getitem item ''path'' of
                         Inl e \<Rightarrow> Some (Inl e, h1)
                       | Inr item_path \<Rightarrow>
                           (case dict_set files item_path (resp_text response) of
                              Inl e \<Rightarrow> Some (Inl e, h1)
                            | Inr files' \<Rightarrow>
                                fetch_items depth env repo_link branch exclude_folders items
                                  files' h1))))
          else fetch_items depth env repo_link branch exclude_folders items files h)"
  by pat_completeness auto
termination
  by (relation
        "measures
           [\<lambda>x. case x of Inl (d, _, _, _, _, _, _) \<Rightarrow> d | Inr (d, _, _, _, _, _, _, _) \<Rightarrow> d,
            \<lambda>x. case x of Inl _ \<Rightarrow> 0 | Inr (_, _, _, _, _, items, _, _) \<Rightarrow> Suc (length items)]")
     auto

section \<open>Branch publisher\<close>

text \<open>
  \<^verbatim>\<open>str(v)\<close>, as an f-string formats a value: a string is itself, the other values are
  printed as Python prints them (a string inside a list or dict is shown between single
  quotes, without the escapes Python would add for quotes and control characters).
\<close>

fun show_nat :: "nat \<Rightarrow> string" where
  "show_nat n =
     (if n < 10 then [char_of (48 + n)] else show_nat (n div 10) @ [char_of (48 + n mod 10)])"

declare show_nat.simps [simp del]

definition show_int :: "int \<Rightarrow> string" where
  "show_int i = (if i < 0 then CHR ''-'' # show_nat (nat (- i)) else show_nat (nat i))"

fun py_repr :: "json \<Rightarrow> string" where
  "py_repr JNull = ''None''"
| "py_repr (JBool b) = (if b then ''True'' else ''False'')"
| "py_repr (JNum n) = show_int n"
| "py_repr (JStr s) = [quote] @ s @ [quote]"
| "py_repr (JArr xs) = ''['' @ join '', '' (map py_repr xs) @ '']''"
| "py_repr (JObj kvs) =
     ''{'' @ join '', '' (map (\<lambda>kv. [quote] @ fst kv @ [quote] @ '': '' @ py_repr (snd kv)) kvs)
       @ ''}''"

fun py_str :: "json \<Rightarrow> string" where
  "py_str (JStr s) = s"
| "py_str v = py_repr v"

text \<open>
  The dict that \<^verbatim>\<open>lambda_handler\<close> hands to \<^verbatim>\<open>create_new_branch\<close>; it always has
  these four keys.
\<close>

record publish_request =
  repository_link :: json
  remediations :: filemap
  base_branch :: json
  new_branch_name :: json

definition post_request :: "url \<Rightarrow> json \<Rightarrow> http_request" where
  "post_request u body = \<lparr>verb = POST, url = u, payload = Some body\<rparr>"

definition patch_request :: "url \<Rightarrow> json \<Rightarrow> http_request" where
  "patch_request u body = \<lparr>verb = PATCH, url = u, payload = Some body\<rparr>"

text \<open>\<^verbatim>\<open>response.json()["sha"]\<close>.\<close>

definition sha_of :: "http_response \<Rightarrow> exn + json" where
  "sha_of response =
     (case json_body response of Inl e \<Rightarrow> Inl e | Inr v \<Rightarrow> py_getitem v ''sha'')"

text \<open>\<^verbatim>\<open>response.json()["object"]["sha"]\<close>.\<close>

definition object_sha_of :: "http_response \<Rightarrow> exn + json" where
  "object_sha_of response =
     (case json_body response of
        Inl e \<Rightarrow> Inl e
      | Inr v \<Rightarrow> (case py_getitem v ''object'' of Inl e \<Rightarrow> Inl e | Inr ob \<Rightarrow> py_getitem ob ''sha''))"

definition blob_payload :: "env \<Rightarrow> string \<Rightarrow> json" where
  "blob_payload env remediated_code =
     JObj [(''content'', JStr (b64encode env remediated_code)), (''encoding'', JStr ''base64'')]"

definition tree_entry :: "json \<Rightarrow> json \<Rightarrow> json" where
  "tree_entry file_path blob_sha =
     JObj [(''path'', file_path), (''mode'', JStr ''100644''), (''type'', JStr ''blob''),
           (''sha'', blob_sha)]"

text \<open>The loop that uploads one blob for each remediated file and collects the entries.\<close>

fun create_blobs ::
  "env \<Rightarrow> string \<Rightarrow> filemap \<Rightarrow> json list \<Rightarrow> history \<Rightarrow> (exn + json list) \<times> history" where
  "create_blobs env repo_path [] blobs h = (Inr blobs, h)"
| "create_blobs env repo_path ((file_path, remediated_code) # rest) blobs h =
     (case requests env (post_request (BlobsUrl repo_path) (blob_payload env remediated_code)) h of
        (Inl e, h1) \<Rightarrow> (Inl e, h1)
      | (Inr response, h1) \<Rightarrow>
          (case sha_of response of
             Inl e \<Rightarrow> (Inl e, h1)
           | Inr blob_sha \<Rightarrow>
               create_blobs env repo_path rest (blobs @ [tree_entry file_path blob_sha]) h1))"

definition create_new_branch ::
  "env \<Rightarrow> publish_request \<Rightarrow> history \<Rightarrow> (exn + json) \<times> history" where
  "create_new_branch env event h =
     (case repo_path_of env (repository_link event) of
        Inl e \<Rightarrow> (Inl e, h)
      | Inr repo_path \<Rightarrow>
     (case requests env (get_request (RefUrl repo_path (base_branch event))) h of
        (Inl e, h1) \<Rightarrow> (Inl e, h1)
      | (Inr base_ref, h1) \<Rightarrow>
     (case object_sha_of base_ref of
        Inl e \<Rightarrow> (Inl e, h1)
      | Inr base_commit \<Rightarrow>
     (case requests env (get_request (RefUrl repo_path (new_branch_name event))) h1 of
        (Inl e, h2) \<Rightarrow> (Inl e, h2)
      | (Inr existing, h2) \<Rightarrow>
     if status_code existing = 200
     then (Inl (ValueError (''Branch '' @ py_str (new_branch_name event) @ '' already exists.'')), h2)
     else
     (case requests env
             (post_request (RefsUrl repo_path)
                (JObj [(''ref'', JStr (''refs/heads/'' @ py_str (new_branch_name event))),
                       (''sha'', base_commit)])) h2 of
        (Inl e, h3) \<Rightarrow> (Inl e, h3)
      | (Inr created, h3) \<Rightarrow>
     (case create_blobs env repo_path (remediations event) [] h3 of
        (Inl e, h4) \<Rightarrow> (Inl e, h4)
      | (Inr blobs, h4) \<Rightarrow>
     (case requests env (get_request (TreeUrl repo_path base_commit)) h4 of
        (Inl e, h5) \<Rightarrow> (Inl e, h5)
      | (Inr base_tree, h5) \<Rightarrow>
     (case sha_of base_tree of
        Inl e \<Rightarrow> (Inl e, h5)
      | Inr base_tree_sha \<Rightarrow>
     (case requests env
             (post_request (TreesUrl repo_path)
                (JObj [(''base_tree'', base_tree_sha), (''tree'', JArr blobs)])) h5 of
        (Inl e, h6) \<Rightarrow> (Inl e, h6)
      | (Inr new_tree, h6) \<Rightarrow>
     (case sha_of new_tree of
        Inl e \<Rightarrow> (Inl e, h6)
      | Inr new_tree_sha \<Rightarrow>
     (case requests env
             (post_request (CommitsUrl repo_path)
                (JObj [(''message'', JStr ''Remediated code''), (''tree'', new_tree_sha),
                       (''parents'', JArr [base_commit])])) h6 of
        (Inl e, h7) \<Rightarrow> (Inl e, h7)
      | (Inr new_commit, h7) \<Rightarrow>
     (case sha_of new_commit of
        Inl e \<Rightarrow> (Inl e, h7)
      | Inr new_commit_sha \<Rightarrow>
     (case requests env
             (patch_request (RefUrl repo_path (new_branch_name event))
                (JObj [(''sha'', new_commit_sha)])) h7 of
        (Inl e, h8) \<Rightarrow> (Inl e, h8)
      | (Inr updated, h8) \<Rightarrow> (Inr (new_branch_name event), h8))))))))))))))"

section \<open>The handler\<close>

text \<open>
  The dict comprehension over \<^verbatim>\<open>parameters\<close>: for each parameter its \<^verbatim>\<open>name\<close> is read
  first, then its \<^verbatim>\<open>value\<close>, and a later parameter of the same name replaces an
  earlier one.
\<close>

fun build_properties :: "json list \<Rightarrow> (json \<times> json) list \<Rightarrow> exn + (json \<times> json) list" where
  "build_properties [] properties = Inr properties"
| "build_properties (param # rest) properties =
     (case py_getitem param ''name'' of
        Inl e \<Rightarrow> Inl e
      | Inr k \<Rightarrow>
          (case py_getitem param ''value'' of
             Inl e \<Rightarrow> Inl e
           | Inr v \<Rightarrow>
               (case dict_set properties k v of
                  Inl e \<Rightarrow> Inl e
                | Inr properties' \<Rightarrow> build_properties rest properties')))"

text \<open>\<^verbatim>\<open>properties.get(k)\<close>: \<^verbatim>\<open>None\<close> when the key is absent.\<close>

definition properties_get :: "(json \<times> json) list \<Rightarrow> string \<Rightarrow> json" where
  "properties_get properties k =
     (case map_of properties (JStr k) of Some v \<Rightarrow> v | None \<Rightarrow> JNull)"

text \<open>
  Lines 150 to 170 of the \<^verbatim>\<open>try\<close> block: the parameters are read and the three stages
  run one after the other. The result is what \<^verbatim>\<open>create_new_branch\<close> returns.
\<close>

definition run_pipeline ::
  "nat \<Rightarrow> env \<Rightarrow> json \<Rightarrow> history \<Rightarrow> ((exn + json) \<times> history) option" where
  "run_pipeline depth env event h =
     (case py_get event ''parameters'' (JObj []) of
        Inl e \<Rightarrow> Some (Inl e, h)
      | Inr parameters \<Rightarrow>
     (case py_iter parameters of
        Inl e \<Rightarrow> Some (Inl e, h)
      | Inr params \<Rightarrow>
     (case build_properties params [] of
        Inl e \<Rightarrow> Some (Inl e, h)
      | Inr properties \<Rightarrow>
     (let repo_link = properties_get properties ''repository_url'';
          branch = properties_get properties ''branch_name'';
          non_code_exts = properties_get properties ''file_extensions_to_exclude'';
          exclude_folders = properties_get properties ''folders_to_exclude'';
          new_branch = properties_get properties ''new_remediated_branch_name''
      in
     (case fetch_repository_contents depth env repo_link branch (JStr []) exclude_folders h of
        None \<Rightarrow> None
      | Some (Inl e, h1) \<Rightarrow> Some (Inl e, h1)
      | Some (Inr code_repo, h1) \<Rightarrow>
     (case analyze_and_remediate_code env code_repo non_code_exts h1 of
        (Inl e, h2) \<Rightarrow> Some (Inl e, h2)
      | (Inr remediated, h2) \<Rightarrow>
          Some (create_new_branch env
                  \<lparr>repository_link = repo_link, remediations = remediated,
                   base_branch = branch, new_branch_name = new_branch\<rparr> h2)))))))"

text \<open>The response envelope, the same in the three places that build it.\<close>

definition envelope :: "json \<Rightarrow> json \<Rightarrow> json \<Rightarrow> json \<Rightarrow> json" where
  "envelope action_group func body message_version =
     JObj [(''response'',
              JObj [(''actionGroup'', action_group), (''function'', func),
                    (''functionResponse'',
                       JObj [(''responseBody'', JObj [(''TEXT'', JObj [(''body'', body)])])])]),
           (''messageVersion'', message_version)]"

text \<open>
  The two \<^verbatim>\<open>except\<close> clauses. Each builds its text, then reads the locals
  \<^verbatim>\<open>actionGroup\<close> and \<^verbatim>\<open>function\<close>, which are bound only if the \<^verbatim>\<open>try\<close> block got past
  their assignments (\<open>None\<close> is the unbound local), and then \<^verbatim>\<open>event['messageVersion']\<close>.
  An exception raised in here leaves the handler: no clause catches it.
\<close>

definition except_clause :: "exn \<Rightarrow> json option \<Rightarrow> json option \<Rightarrow> json \<Rightarrow> exn + json" where
  "except_clause e action_group func event =
     (let body =
            (if is_KeyError e then ''Missing required information: '' @ str_exn e
             else ''Error: '' @ str_exn e)
      in case action_group of
           None \<Rightarrow> Inl (UnboundLocalError ''actionGroup'')
         | Some ag \<Rightarrow>
             (case func of
                None \<Rightarrow> Inl (UnboundLocalError ''function'')
              | Some fn \<Rightarrow>
                  (case py_getitem event ''messageVersion'' of
                     Inl e' \<Rightarrow> Inl e'
                   | Inr mv \<Rightarrow> Inr (envelope ag fn (JStr body) mv))))"

text \<open>
  \<^verbatim>\<open>lambda_handler(event, context)\<close>; \<^verbatim>\<open>context\<close> is never read. \<open>Inl\<close> is an
  exception that leaves the handler, \<open>Inr\<close> the response it returns.
\<close>

definition lambda_handler ::
  "nat \<Rightarrow> env \<Rightarrow> json \<Rightarrow> history \<Rightarrow> ((exn + json) \<times> history) option" where
  "lambda_handler depth env event h =
     (case py_getitem event ''agent'' of
        Inl e \<Rightarrow> Some (except_clause e None None event, h)
      | Inr agent \<Rightarrow>
     (case py_getitem event ''actionGroup'' of
        Inl e \<Rightarrow> Some (except_clause e None None event, h)
      | Inr action_group \<Rightarrow>
     (case py_getitem event ''function'' of
        Inl e \<Rightarrow> Some (except_clause e (Some action_group) None event, h)
      | Inr func \<Rightarrow>
     (case run_pipeline depth env event h of
        None \<Rightarrow> None
      | Some (Inl e, h1) \<Rightarrow> Some (except_clause e (Some action_group) (Some func) event, h1)
      | Some (Inr new_branch, h1) \<Rightarrow>
          (case py_getitem event ''messageVersion'' of
             Inl e \<Rightarrow> Some (except_clause e (Some action_group) (Some func) event, h1)
           | Inr mv \<Rightarrow> Some (Inr (envelope action_group func new_branch mv), h1))))))"

section \<open>Specification vocabulary and sample environments\<close>

text \<open>
  A FileMap of the specification, paths and contents both strings, as the Python dict
  the code works on.
\<close>

definition as_filemap :: "(string \<times> string) list \<Rightarrow> filemap" where
  "as_filemap fm = map (\<lambda>pc. (JStr (fst pc), snd pc)) fm"

text \<open>The model answers every call, and each answer carries a string completion or none.\<close>

definition model_answers :: "env \<Rightarrow> bool" where
  "model_answers env = (\<forall>h req. \<exists>body s. bedrock env h req = Inr body \<and> completion_of body = Inr s)"

text \<open>
  Sample environments for the closed instances below. \<open>fixed_model s\<close> is a model that
  completes every prompt with \<open>s\<close>, next to a hosting API that knows no repository.
  In all of them the repository links have the form \<^verbatim>\<open>https://github.com/owner/repo\<close>,
  so that the path of a link is what follows its first 18 characters, and the identity
  stands in for the base64 encoding.
\<close>

definition not_found :: http_response where
  "not_found =
     \<lparr>status_code = 404, resp_text = ''404: Not Found'',
      json_body = Inr (JObj [(''message'', JStr ''Not Found'')])\<rparr>"

definition ok_json :: "json \<Rightarrow> http_response" where
  "ok_json v = \<lparr>status_code = 200, resp_text = [], json_body = Inr v\<rparr>"

definition fixed_model :: "string \<Rightarrow> env" where
  "fixed_model s =
     \<lparr>http = (\<lambda>h req. Inr not_found),
      bedrock = (\<lambda>h req. Inr (JObj [(''completion'', JStr s)])),
      urlparse_path = (\<lambda>link. Inr (drop 18 link)),
      b64encode = (\<lambda>s. s)\<rparr>"

text \<open>A completion of the usual shape: the preamble, then the code between two fences.\<close>

definition fenced_answer :: string where
  "fenced_answer = preamble @ ''\<newline>'' @ fence @ ''python\<newline>print(2)\<newline>'' @ fence"

text \<open>
  \<open>response_to env hs i\<close> is what the hosting API answered to call number \<open>i\<close> of the
  history \<open>hs\<close>, having seen the calls before it.
\<close>

definition response_to :: "env \<Rightarrow> history \<Rightarrow> nat \<Rightarrow> exn + http_response" where
  "response_to env hs i =
     (case hs ! i of
        HttpCall req \<Rightarrow> http env (take i hs) req
      | ModelCall req \<Rightarrow> Inl (OtherError ''not an HTTP call'' []))"

text \<open>
  \<open>sample_hosting\<close> is a hosting API with one branch, \<^verbatim>\<open>main\<close> at commit \<^verbatim>\<open>C1\<close> with
  tree \<^verbatim>\<open>T1\<close>; it names every new blob \<^verbatim>\<open>B1\<close>, every new tree \<^verbatim>\<open>T2\<close> and every new
  commit \<^verbatim>\<open>C2\<close>.
\<close>

definition created_json :: "json \<Rightarrow> http_response" where
  "created_json v = \<lparr>status_code = 201, resp_text = [], json_body = Inr v\<rparr>"

definition sample_http :: "history \<Rightarrow> http_request \<Rightarrow> exn + http_response" where
  "sample_http h req =
     (case (verb req, url req) of
        (GET, RefUrl rp b) \<Rightarrow>
          if b = JStr ''main''
          then Inr (ok_json (JObj [(''ref'', JStr ''refs/heads/main''),
                                   (''object'', JObj [(''sha'', JStr ''C1'')])]))
          else Inr not_found
      | (GET, TreeUrl rp s) \<Rightarrow> Inr (ok_json (JObj [(''sha'', JStr ''T1'')]))
      | (POST, RefsUrl rp) \<Rightarrow> Inr (created_json (JObj [(''ref'', JStr ''created'')]))
      | (POST, BlobsUrl rp) \<Rightarrow> Inr (created_json (JObj [(''sha'', JStr ''B1'')]))
      | (POST, TreesUrl rp) \<Rightarrow> Inr (created_json (JObj [(''sha'', JStr ''T2'')]))
      | (POST, CommitsUrl rp) \<Rightarrow> Inr (created_json (JObj [(''sha'', JStr ''C2'')]))
      | (PATCH, RefUrl rp b) \<Rightarrow> Inr (ok_json (JObj [(''ref'', JStr ''updated'')]))
      | _ \<Rightarrow> Inr not_found)"

definition sample_hosting :: env where
  "sample_hosting =
     \<lparr>http = sample_http,
      bedrock = (\<lambda>h req. Inr (JObj [(''completion'', JStr ''print(2)'')])),
      urlparse_path = (\<lambda>link. Inr (drop 18 link)),
      b64encode = (\<lambda>s. s)\<rparr>"

definition sample_publish :: "json \<Rightarrow> publish_request" where
  "sample_publish new_branch =
     \<lparr>repository_link = JStr ''https://github.com/o/r'',
      remediations = [(JStr ''a.py'', ''print(2)'')],
      base_branch = JStr ''main'',
      new_branch_name = new_branch\<rparr>"

text \<open>
  Two invocation events. The first is what an agent sends for an action group that is
  defined by an API schema: it carries \<^verbatim>\<open>apiPath\<close> and \<^verbatim>\<open>httpMethod\<close> and no \<^verbatim>\<open>function\<close>.
  The second is complete but for the parameter \<^verbatim>\<open>repository_url\<close>.
\<close>

definition api_schema_event :: json where
  "api_schema_event =
     JObj [(''messageVersion'', JStr ''1.0''),
           (''agent'', JObj [(''name'', JStr ''remediator'')]),
           (''actionGroup'', JStr ''repository''),
           (''apiPath'', JStr ''/remediate''),
           (''httpMethod'', JStr ''POST''),
           (''parameters'',
              JArr [JObj [(''name'', JStr ''repository_url''), (''type'', JStr ''string''),
                          (''value'', JStr ''https://github.com/o/r'')]])]"

definition no_repository_url_event :: json where
  "no_repository_url_event =
     JObj [(''messageVersion'', JStr ''1.0''),
           (''agent'', JObj [(''name'', JStr ''remediator'')]),
           (''actionGroup'', JStr ''repository''),
           (''function'', JStr ''remediate''),
           (''parameters'',
              JArr [JObj [(''name'', JStr ''branch_name''), (''type'', JStr ''string''),
                          (''value'', JStr ''main'')]])]"

text \<open>The blob uploads of the publisher, one call for each remediated file, in order.\<close>

definition blob_calls :: "env \<Rightarrow> string \<Rightarrow> filemap \<Rightarrow> history" where
  "blob_calls env repo_path files =
     map (\<lambda>pc. HttpCall (post_request (BlobsUrl repo_path) (blob_payload env (snd pc)))) files"

text \<open>
  What the publisher sends to \<open>sample_hosting\<close> when it publishes \<^verbatim>\<open>a.py\<close> from \<^verbatim>\<open>main\<close>
  to the new branch \<^verbatim>\<open>fix/1\<close>.
\<close>

definition sample_trace :: history where
  "sample_trace =
     [HttpCall \<lparr>verb = GET, url = RefUrl ''o/r'' (JStr ''main''), payload = None\<rparr>,
      HttpCall \<lparr>verb = GET, url = RefUrl ''o/r'' (JStr ''fix/1''), payload = None\<rparr>,
      HttpCall \<lparr>verb = POST, url = RefsUrl ''o/r'',
                payload = Some (JObj [(''ref'', JStr ''refs/heads/fix/1''),
                                      (''sha'', JStr ''C1'')])\<rparr>,
      HttpCall \<lparr>verb = POST, url = BlobsUrl ''o/r'',
                payload = Some (JObj [(''content'', JStr ''print(2)''),
                                      (''encoding'', JStr ''base64'')])\<rparr>,
      HttpCall \<lparr>verb = GET, url = TreeUrl ''o/r'' (JStr ''C1''), payload = None\<rparr>,
      HttpCall \<lparr>verb = POST, url = TreesUrl ''o/r'',
                payload = Some (JObj [(''base_tree'', JStr ''T1''),
                                      (''tree'',
                                       JArr [JObj [(''path'', JStr ''a.py''),
                                                   (''mode'', JStr ''100644''),
                                                   (''type'', JStr ''blob''),
                                                   (''sha'', JStr ''B1'')]])])\<rparr>,
      HttpCall \<lparr>verb = POST, url = CommitsUrl ''o/r'',
                payload = Some (JObj [(''message'', JStr ''Remediated code''),
                                      (''tree'', JStr ''T2''),
                                      (''parents'', JArr [JStr ''C1''])])\<rparr>,
      HttpCall \<lparr>verb = PATCH, url = RefUrl ''o/r'' (JStr ''fix/1''),
                payload = Some (JObj [(''sha'', JStr ''C2'')])\<rparr>]"

subsection \<open>Repository trees\<close>

text \<open>
  The directory tree that the hosting API presents, entry by entry as a listing reports
  it: a file with its path, its download URL and the text found there; a directory with
  its path and the entries of its own listing; anything else (a symlink, a submodule)
  with its type.
\<close>

datatype entry =
    File string string string
  | Dir string "entry list"
  | Other string

text \<open>An item of a listing describes an entry: the three keys the fetcher reads.\<close>

fun describes :: "json \<Rightarrow> entry \<Rightarrow> bool" where
  "describes item (File path download_url content) =
     (py_getitem item ''type'' = Inr (JStr ''file'')
      \<and> py_getitem item ''path'' = Inr (JStr path)
      \<and> py_getitem item ''download_url'' = Inr (JStr download_url))"
| "describes item (Dir path entries) =
     (py_getitem item ''type'' = Inr (JStr ''dir'')
      \<and> py_getitem item ''path'' = Inr (JStr path))"
| "describes item (Other ty) =
     (py_getitem item ''type'' = Inr (JStr ty) \<and> ty \<noteq> ''dir'' \<and> ty \<noteq> ''file'')"

text \<open>
  The API lists the directory at \<open>path\<close> as \<open>entries\<close>, and it delivers \<open>content\<close> at a
  download URL, whenever it is asked.
\<close>

definition lists_directory :: "env \<Rightarrow> string \<Rightarrow> json \<Rightarrow> json \<Rightarrow> entry list \<Rightarrow> bool" where
  "lists_directory env repo_path branch path entries =
     (\<forall>h. \<exists>response listing items.
        http env h (get_request (ContentsUrl repo_path path branch)) = Inr response
        \<and> raise_for_status response = Inr ()
        \<and> json_body response = Inr listing
        \<and> py_iter listing = Inr items
        \<and> list_all2 describes items entries)"

definition downloads :: "env \<Rightarrow> string \<Rightarrow> string \<Rightarrow> bool" where
  "downloads env download_url content =
     (\<forall>h. \<exists>response.
        http env h (get_request (RawUrl (JStr download_url))) = Inr response
        \<and> resp_text response = content)"

fun serves_entry :: "env \<Rightarrow> string \<Rightarrow> json \<Rightarrow> entry \<Rightarrow> bool" where
  "serves_entry env repo_path branch (File path download_url content) =
     downloads env download_url content"
| "serves_entry env repo_path branch (Dir path entries) =
     (lists_directory env repo_path branch (JStr path) entries
      \<and> (\<forall>e\<in>set entries. serves_entry env repo_path branch e))"
| "serves_entry env repo_path branch (Other ty) = True"

definition serves_tree :: "env \<Rightarrow> string \<Rightarrow> json \<Rightarrow> entry list \<Rightarrow> bool" where
  "serves_tree env repo_path branch tree =
     (lists_directory env repo_path branch (JStr []) tree
      \<and> (\<forall>e\<in>set tree. serves_entry env repo_path branch e))"

text \<open>How many directories are nested in an entry, and in a listing.\<close>

fun height :: "entry \<Rightarrow> nat" where
  "height (Dir path entries) = Suc (foldr max (map height entries) 0)"
| "height e = 0"

definition listing_height :: "entry list \<Rightarrow> nat" where
  "listing_height entries = foldr max (map height entries) 0"

text \<open>
  The files below an entry, each with the names of the directories that lie between the
  entry and the file (the name of a directory is the last segment of its path), its path
  and its content.
\<close>

fun files_of :: "entry \<Rightarrow> (string list \<times> string \<times> string) list" where
  "files_of (File path download_url content) = [([], path, content)]"
| "files_of (Dir path entries) =
     map (\<lambda>f. (last_segment path # fst f, snd f)) (concat (map files_of entries))"
| "files_of (Other ty) = []"

definition tree_files :: "entry list \<Rightarrow> (string list \<times> string \<times> string) list" where
  "tree_files tree = concat (map files_of tree)"

text \<open>The files that lie under no directory with an excluded name, as bindings of a FileMap.\<close>

definition outside_excluded ::
  "string list \<Rightarrow> (string list \<times> string \<times> string) list \<Rightarrow> (json \<times> string) list" where
  "outside_excluded excluded fs =
     map (\<lambda>f. (JStr (fst (snd f)), snd (snd f)))
       (filter (\<lambda>f. set (fst f) \<inter> set excluded = {}) fs)"

text \<open>The same files, collected the way the fetcher walks the tree.\<close>

fun kept :: "string list \<Rightarrow> entry \<Rightarrow> (json \<times> string) list" where
  "kept excluded (File path download_url content) = [(JStr path, content)]"
| "kept excluded (Dir path entries) =
     (if last_segment path \<in> set excluded then []
      else concat (map (kept excluded) entries))"
| "kept excluded (Other ty) = []"

text \<open>
  A sample repository: \<^verbatim>\<open>src/a.py\<close>, \<^verbatim>\<open>src/node_modules/x.js\<close>, \<^verbatim>\<open>node_modules/y.js\<close>, a
  symlink and \<^verbatim>\<open>README.md\<close>, and the hosting API that serves it.
\<close>

definition sample_root :: "entry list" where
  "sample_root =
     [Dir ''src''
        [File ''src/a.py'' ''https://raw.githubusercontent.com/o/r/main/src/a.py''
           ''print(1)'',
         Dir ''src/node_modules''
           [File ''src/node_modules/x.js''
              ''https://raw.githubusercontent.com/o/r/main/src/node_modules/x.js'' ''x()'']],
      Dir ''node_modules''
        [File ''node_modules/y.js''
           ''https://raw.githubusercontent.com/o/r/main/node_modules/y.js'' ''y()''],
      Other ''symlink'',
      File ''README.md'' ''https://raw.githubusercontent.com/o/r/main/README.md'' ''hi'']"

fun item_of :: "entry \<Rightarrow> json" where
  "item_of (File path download_url content) =
     JObj [(''type'', JStr ''file''), (''path'', JStr path),
           (''download_url'', JStr download_url)]"
| "item_of (Dir path entries) =
     JObj [(''type'', JStr ''dir''), (''path'', JStr path), (''download_url'', JNull)]"
| "item_of (Other ty) = JObj [(''type'', JStr ty), (''download_url'', JNull)]"

definition listing_of :: "entry list \<Rightarrow> http_response" where
  "listing_of entries = ok_json (JArr (map item_of entries))"

definition raw_text :: "string \<Rightarrow> http_response" where
  "raw_text s = \<lparr>status_code = 200, resp_text = s, json_body = Inl (OtherError ''JSONDecodeError'' [])\<rparr>"

definition tree_http :: "history \<Rightarrow> http_request \<Rightarrow> exn + http_response" where
  "tree_http h req =
     (case (verb req, url req) of
        (GET, ContentsUrl rp path branch) \<Rightarrow>
          if path = JStr [] then Inr (listing_of sample_root)
          else if path = JStr ''src'' then
            Inr (listing_of
                   [File ''src/a.py'' ''https://raw.githubusercontent.com/o/r/main/src/a.py'' ''print(1)'',
                    Dir ''src/node_modules''
                      [File ''src/node_modules/x.js'' ''https://raw.githubusercontent.com/o/r/main/src/node_modules/x.js'' ''x()'']])
          else if path = JStr ''src/node_modules'' then
            Inr (listing_of [File ''src/node_modules/x.js'' ''https://raw.githubusercontent.com/o/r/main/src/node_modules/x.js'' ''x()''])
          else if path = JStr ''node_modules'' then
            Inr (listing_of [File ''node_modules/y.js'' ''https://raw.githubusercontent.com/o/r/main/node_modules/y.js'' ''y()''])
          else Inr not_found
      | (GET, RawUrl u) \<Rightarrow>
          if u = JStr ''https://raw.githubusercontent.com/o/r/main/src/a.py'' then Inr (raw_text ''print(1)'')
          else if u = JStr ''https://raw.githubusercontent.com/o/r/main/src/node_modules/x.js'' then Inr (raw_text ''x()'')
          else if u = JStr ''https://raw.githubusercontent.com/o/r/main/node_modules/y.js'' then Inr (raw_text ''y()'')
          else if u = JStr ''https://raw.githubusercontent.com/o/r/main/README.md'' then Inr (raw_text ''hi'')
          else Inr not_found
      | _ \<Rightarrow> Inr not_found)"

definition tree_hosting :: env where
  "tree_hosting =
     \<lparr>http = tree_http,
      bedrock = (\<lambda>h req. Inr (JObj [(''completion'', JStr ''print(2)'')])),
      urlparse_path = (\<lambda>link. Inr (drop 18 link)),
      b64encode = (\<lambda>s. s)\<rparr>"

text \<open>A hosting API that lists one file and has nothing at its download URL.\<close>

definition dangling_http :: "history \<Rightarrow> http_request \<Rightarrow> exn + http_response" where
  "dangling_http h req =
     (case (verb req, url req) of
        (GET, ContentsUrl rp path branch) \<Rightarrow>
          Inr (listing_of [File ''a.py'' ''https://raw.githubusercontent.com/o/r/main/a.py'' ''print(1)''])
      | _ \<Rightarrow> Inr not_found)"

definition dangling_hosting :: env where
  "dangling_hosting =
     \<lparr>http = dangling_http,
      bedrock = (\<lambda>h req. Inr (JObj [(''completion'', JStr ''print(2)'')])),
      urlparse_path = (\<lambda>link. Inr (drop 18 link)),
      b64encode = (\<lambda>s. s)\<rparr>"

section \<open>Properties of the analyzer and remediator\<close>

lemma endswith_iff: "endswith s e \<longleftrightarrow> (\<exists>pre. s = pre @ e)"
proof
  assume "endswith s e"
  then have "s = take (length s - length e) s @ e"
    by (metis append_take_drop_id endswith_def)
  then show "\<exists>pre. s = pre @ e" ..
next
  assume "\<exists>pre. s = pre @ e"
  then show "endswith s e" by (auto simp: endswith_def)
qed

lemma any_endswith_strings:
  "any_endswith (JStr p) (map JStr exts) = Inr (\<exists>e\<in>set exts. endswith p e)"
  by (induction exts) (auto split: bool.splits)

lemma is_non_code_strings:
  "is_non_code (JStr p) (JArr (map JStr exts)) = Inr (\<exists>e\<in>set exts. endswith p e)"
  by (simp add: is_non_code_def any_endswith_strings)

lemma dict_set_keys:
  "dict_set d k v = Inr d' \<Longrightarrow> fst ` set d' = insert k (fst ` set d)"
proof -
  assume "dict_set d k v = Inr d'"
  then have "d' = AList.update k v d"
    by (auto simp: dict_set_def split: if_splits)
  then show ?thesis
    by (simp add: dom_update)
qed

lemma analyze_code_history:
  "analyze_code env code h = (r, h') \<Longrightarrow> h' = h @ [ModelCall (analysis_request code)]"
  by (auto simp: analyze_code_def invoke_model_def split: sum.splits)

lemma remediate_code_history:
  "remediate_code env code issues h = (r, h') \<Longrightarrow>
     h' = h @ [ModelCall (remediation_request code issues)]"
  by (auto simp: remediate_code_def invoke_model_def split: sum.splits)

lemma remediate_items_keys:
  "remediate_items env exts items acc h = (Inr rem, h') \<Longrightarrow>
     fst ` set rem = fst ` set acc \<union> {k \<in> fst ` set items. is_non_code k exts = Inr False}"
proof (induction items arbitrary: acc h)
  case Nil
  then show ?case by simp
next
  case (Cons item items)
  obtain k c where item: "item = (k, c)" by (cases item)
  show ?case
  proof (cases "is_non_code k exts")
    case (Inl e)
    with Cons.prems item show ?thesis by simp
  next
    case (Inr skip)
    show ?thesis
    proof (cases skip)
      case True
      with Cons.prems item Inr
      have "remediate_items env exts items acc h = (Inr rem, h')" by simp
      from Cons.IH [OF this] item Inr True show ?thesis by auto
    next
      case False
      with Cons.prems item Inr obtain issues h1 code h2 acc' where
        "dict_set acc k code = Inr acc'"
        "remediate_items env exts items acc' h2 = (Inr rem, h')"
        by (auto split: sum.splits prod.splits)
      from Cons.IH [OF this(2)] dict_set_keys [OF this(1)] item Inr False
      show ?thesis by auto
    qed
  qed
qed


lemma remediate_items_history:
  "remediate_items env exts items acc h = (r, h') \<Longrightarrow> prefix h h'"
proof (induction items arbitrary: acc h)
  case Nil
  then show ?case by simp
next
  case (Cons item items)
  obtain k c where item: "item = (k, c)" by (cases item)
  show ?case
  proof (cases "is_non_code k exts")
    case (Inl e)
    with Cons.prems item show ?thesis by simp
  next
    case (Inr skip)
    show ?thesis
    proof (cases skip)
      case True
      with Cons.prems item Inr show ?thesis by (auto dest: Cons.IH)
    next
      case False
      obtain ra h1 where a: "analyze_code env c h = (ra, h1)" by (cases "analyze_code env c h")
      then have h1: "h1 = h @ [ModelCall (analysis_request c)]" by (rule analyze_code_history)
      show ?thesis
      proof (cases ra)
        case (Inl e)
        with Cons.prems item Inr False a h1 show ?thesis by auto
      next
        case ra: (Inr issues)
        obtain rr h2 where b: "remediate_code env c issues h1 = (rr, h2)"
          by (cases "remediate_code env c issues h1")
        then have h2: "h2 = h1 @ [ModelCall (remediation_request c issues)]"
          by (rule remediate_code_history)
        show ?thesis
        proof (cases rr)
          case (Inl e)
          with Cons.prems item Inr False a ra b h1 h2 show ?thesis by auto
        next
          case rr: (Inr code)
          show ?thesis
          proof (cases "dict_set acc k code")
            case (Inl e)
            with Cons.prems item Inr False a ra b rr h1 h2 show ?thesis by auto
          next
            case ds: (Inr acc')
            with Cons.prems item Inr False a ra b rr
            have "remediate_items env exts items acc' h2 = (r, h')" by simp
            then have "prefix h2 h'" by (rule Cons.IH)
            with h1 h2 show ?thesis by (auto simp: prefix_def)
          qed
        qed
      qed
    qed
  qed
qed

lemma model_answers_analyze:
  "model_answers env \<Longrightarrow> \<exists>issues h1. analyze_code env c h = (Inr issues, h1)"
proof -
  assume "model_answers env"
  then obtain body s where "bedrock env h (analysis_request c) = Inr body" "completion_of body = Inr s"
    unfolding model_answers_def by blast
  then show ?thesis by (simp add: analyze_code_def invoke_model_def)
qed

lemma model_answers_remediate:
  "model_answers env \<Longrightarrow> \<exists>code h1. remediate_code env c issues h = (Inr code, h1)"
proof -
  assume "model_answers env"
  then obtain body s where "bedrock env h (remediation_request c issues) = Inr body" "completion_of body = Inr s"
    unfolding model_answers_def by blast
  then show ?thesis by (simp add: remediate_code_def invoke_model_def)
qed

lemma remediate_items_returns:
  assumes "model_answers env"
    and "\<forall>k\<in>fst ` set items. hashable k \<and> (\<exists>b. is_non_code k exts = Inr b)"
  shows "\<exists>rem h'. remediate_items env exts items acc h = (Inr rem, h')"
  using assms(2)
proof (induction items arbitrary: acc h)
  case Nil
  then show ?case by simp
next
  case (Cons item items)
  obtain k c where item: "item = (k, c)" by (cases item)
  from Cons.prems item obtain b where k: "hashable k" and b: "is_non_code k exts = Inr b" by auto
  from Cons.prems have rest: "\<forall>k\<in>fst ` set items. hashable k \<and> (\<exists>b. is_non_code k exts = Inr b)"
    by simp
  show ?case
  proof (cases b)
    case True
    with item b Cons.IH [OF rest] show ?thesis by simp
  next
    case False
    obtain issues h1 where a: "analyze_code env c h = (Inr issues, h1)"
      using model_answers_analyze [OF assms(1)] by blast
    obtain code h2 where r: "remediate_code env c issues h1 = (Inr code, h2)"
      using model_answers_remediate [OF assms(1)] by blast
    from k have d: "dict_set acc k code = Inr (AList.update k code acc)"
      by (simp add: dict_set_def)
    from Cons.IH [OF rest, of "AList.update k code acc" h2] item b False a r d
    show ?thesis by simp
  qed
qed

text \<open>
  Claim C4. For a FileMap and a list of excluded extensions, the keys of the map that
  \<^verbatim>\<open>analyze_and_remediate_code\<close> returns are exactly the paths of the FileMap that end
  with none of the extensions. The model call of a file can raise, and then nothing is
  returned; when the model answers every call, a map is returned. The instance below is
  the scenario of the specification: of \<^verbatim>\<open>a.py\<close> and \<^verbatim>\<open>README.md\<close> with \<^verbatim>\<open>.md\<close> excluded,
  only \<^verbatim>\<open>a.py\<close> is a key of the result.
\<close>

theorem analyze_and_remediate_code_keys:
  "(model_answers env \<longrightarrow>
      (\<exists>rem h'. analyze_and_remediate_code env (as_filemap fm) (JArr (map JStr exts)) h
                 = (Inr rem, h')))
   \<and> (\<forall>rem h'. analyze_and_remediate_code env (as_filemap fm) (JArr (map JStr exts)) h
                 = (Inr rem, h')
        \<longrightarrow> fst ` set rem = JStr ` {p \<in> fst ` set fm. \<not> (\<exists>e\<in>set exts. endswith p e)})"
proof (intro conjI impI allI)
  assume "model_answers env"
  moreover have "\<forall>k\<in>fst ` set (as_filemap fm).
      hashable k \<and> (\<exists>b. is_non_code k (JArr (map JStr exts)) = Inr b)"
    by (auto simp: as_filemap_def is_non_code_strings)
  ultimately show "\<exists>rem h'. analyze_and_remediate_code env (as_filemap fm) (JArr (map JStr exts)) h
                 = (Inr rem, h')"
    unfolding analyze_and_remediate_code_def by (rule remediate_items_returns)
next
  fix rem h'
  assume "analyze_and_remediate_code env (as_filemap fm) (JArr (map JStr exts)) h = (Inr rem, h')"
  then have "remediate_items env (JArr (map JStr exts)) (as_filemap fm) [] h = (Inr rem, h')"
    by (simp add: analyze_and_remediate_code_def)
  from remediate_items_keys [OF this] have "fst ` set rem =
      {k \<in> fst ` set (as_filemap fm). is_non_code k (JArr (map JStr exts)) = Inr False}"
    by simp
  also have "\<dots> = JStr ` {p \<in> fst ` set fm. \<not> (\<exists>e\<in>set exts. endswith p e)}"
    by (force simp: as_filemap_def is_non_code_strings image_iff)
  finally show "fst ` set rem = JStr ` {p \<in> fst ` set fm. \<not> (\<exists>e\<in>set exts. endswith p e)}" .
qed

lemma fixed_model_answers: "model_answers (fixed_model s)"
  by (simp add: model_answers_def fixed_model_def completion_of_def)

theorem analyze_and_remediate_code_keys_witness:
  "model_answers (fixed_model ''ok'')
   \<and> (\<exists>rem h'. analyze_and_remediate_code (fixed_model ''ok'')
          (as_filemap [(''a.py'', ''print(1)''), (''README.md'', ''hi'')])
          (JArr (map JStr [''.md''])) [] = (Inr rem, h')
        \<and> fst ` set rem = {JStr ''a.py''})"
proof -
  note t = analyze_and_remediate_code_keys
    [of "fixed_model ''ok''" "[(''a.py'', ''print(1)''), (''README.md'', ''hi'')]" "[''.md'']" "[]"]
  have m: "model_answers (fixed_model ''ok'')" by (rule fixed_model_answers)
  with t obtain rem h' where r: "analyze_and_remediate_code (fixed_model ''ok'')
          (as_filemap [(''a.py'', ''print(1)''), (''README.md'', ''hi'')])
          (JArr (map JStr [''.md''])) [] = (Inr rem, h')" by blast
  with t have "fst ` set rem =
      JStr ` {p \<in> fst ` set [(''a.py'', ''print(1)''), (''README.md'', ''hi'')].
                 \<not> (\<exists>e\<in>set [''.md'']. endswith p e)}" by blast
  also have "\<dots> = {JStr ''a.py''}"
    by (auto simp: endswith_def)
  finally show ?thesis using m r by blast
qed

lemma remediate_items_requests:
  assumes "remediate_items env exts items acc h = (Inr rem, h')"
    and "(k, c) \<in> set items" and "is_non_code k exts = Inr False"
  shows "\<exists>pre issues post.
           analyze_code env c pre = (Inr issues, pre @ [ModelCall (analysis_request c)])
           \<and> h' = pre @ [ModelCall (analysis_request c),
                          ModelCall (remediation_request c issues)] @ post"
  using assms(1,2)
proof (induction items arbitrary: acc h)
  case Nil
  then show ?case by simp
next
  case (Cons item items)
  obtain k' c' where item: "item = (k', c')" by (cases item)
  show ?case
  proof (cases "is_non_code k' exts")
    case (Inl e)
    with Cons.prems item show ?thesis by simp
  next
    case (Inr skip)
    show ?thesis
    proof (cases skip)
      case True
      with Cons.prems(1) item Inr
      have run: "remediate_items env exts items acc h = (Inr rem, h')" by simp
      from True Inr assms(3) item have "(k, c) \<noteq> item" by auto
      with Cons.prems(2) have "(k, c) \<in> set items" by simp
      with run show ?thesis by (rule Cons.IH)
    next
      case False
      with Cons.prems(1) item Inr obtain issues h1 code h2 acc' where
        a: "analyze_code env c' h = (Inr issues, h1)" and
        r: "remediate_code env c' issues h1 = (Inr code, h2)" and
        run: "remediate_items env exts items acc' h2 = (Inr rem, h')"
        by (auto split: sum.splits prod.splits)
      from a have h1: "h1 = h @ [ModelCall (analysis_request c')]"
        by (rule analyze_code_history)
      from r have h2: "h2 = h1 @ [ModelCall (remediation_request c' issues)]"
        by (rule remediate_code_history)
      show ?thesis
      proof (cases "(k, c) = item")
        case True
        from run have "prefix h2 h'" by (rule remediate_items_history)
        then obtain post where "h' = h2 @ post" by (auto simp: prefix_def)
        with h1 h2 have "h' = h @ [ModelCall (analysis_request c'),
            ModelCall (remediation_request c' issues)] @ post" by simp
        with a h1 True item show ?thesis by blast
      next
        case False
        with Cons.prems(2) have "(k, c) \<in> set items" by auto
        with run show ?thesis by (rule Cons.IH)
      qed
    qed
  qed
qed

text \<open>
  Claim C8. For every file of the FileMap that is not excluded, remediation is requested
  right after analysis, with whatever issues the analysis gave, and the file gets its
  entry in the RemediationMap. No test on the issue list stands between the two calls:
  the closed instance below runs a model whose analysis names none of the five
  categories, and the remediation request with the empty issue list is sent all the same.
\<close>

theorem remediation_requested_for_every_code_file:
  assumes "(k, c) \<in> set code_repo"
    and "is_non_code k non_code_exts = Inr False"
    and "analyze_and_remediate_code env code_repo non_code_exts h = (Inr rem, h')"
  shows "k \<in> fst ` set rem
         \<and> (\<exists>pre issues post.
               analyze_code env c pre = (Inr issues, pre @ [ModelCall (analysis_request c)])
               \<and> h' = pre @ [ModelCall (analysis_request c),
                              ModelCall (remediation_request c issues)] @ post)"
proof
  from assms(3) have run: "remediate_items env non_code_exts code_repo [] h = (Inr rem, h')"
    by (simp add: analyze_and_remediate_code_def)
  from assms(1) have "k \<in> fst ` set code_repo" by force
  with remediate_items_keys [OF run] assms(2) show "k \<in> fst ` set rem" by simp
  from run assms(1,2) show "\<exists>pre issues post.
               analyze_code env c pre = (Inr issues, pre @ [ModelCall (analysis_request c)])
               \<and> h' = pre @ [ModelCall (analysis_request c),
                              ModelCall (remediation_request c issues)] @ post"
    by (rule remediate_items_requests)
qed


theorem remediation_requested_for_every_code_file_witness:
  "(JStr ''a.py'', ''print(1)'') \<in> set [(JStr ''a.py'', ''print(1)'')]
   \<and> is_non_code (JStr ''a.py'') (JArr [JStr ''.md'']) = Inr False
   \<and> analyze_code (fixed_model ''Looks fine.'') ''print(1)'' []
       = (Inr [], [ModelCall (analysis_request ''print(1)'')])
   \<and> analyze_and_remediate_code (fixed_model ''Looks fine.'')
         [(JStr ''a.py'', ''print(1)'')] (JArr [JStr ''.md'']) []
       = (Inr [(JStr ''a.py'', ''Looks fine.'')],
          [ModelCall (analysis_request ''print(1)''),
           ModelCall (remediation_request ''print(1)'' [])])
   \<and> JStr ''a.py'' \<in> fst ` set [(JStr ''a.py'', ''Looks fine.'')]
   \<and> (\<exists>pre issues post.
         analyze_code (fixed_model ''Looks fine.'') ''print(1)'' pre
           = (Inr issues, pre @ [ModelCall (analysis_request ''print(1)'')])
         \<and> [ModelCall (analysis_request ''print(1)''),
              ModelCall (remediation_request ''print(1)'' [])]
            = pre @ [ModelCall (analysis_request ''print(1)''),
                     ModelCall (remediation_request ''print(1)'' issues)] @ post)"
proof -
  have member: "(JStr ''a.py'', ''print(1)'') \<in> set [(JStr ''a.py'', ''print(1)'')]"
    by simp
  have kept: "is_non_code (JStr ''a.py'') (JArr [JStr ''.md'']) = Inr False"
    by (simp add: is_non_code_def endswith_def)
  have no_issue: "analyze_code (fixed_model ''Looks fine.'') ''print(1)'' []
       = (Inr [], [ModelCall (analysis_request ''print(1)'')])"
    by (simp add: analyze_code_def invoke_model_def fixed_model_def completion_of_def strip_def
          is_space_def issue_patterns_def)
  have run: "analyze_and_remediate_code (fixed_model ''Looks fine.'')
         [(JStr ''a.py'', ''print(1)'')] (JArr [JStr ''.md'']) []
       = (Inr [(JStr ''a.py'', ''Looks fine.'')],
          [ModelCall (analysis_request ''print(1)''),
           ModelCall (remediation_request ''print(1)'' [])])"
    by (simp add: analyze_and_remediate_code_def is_non_code_def endswith_def analyze_code_def
          remediate_code_def invoke_model_def fixed_model_def completion_of_def strip_def
          is_space_def issue_patterns_def clean_remediation_def fence_def backtick_def
          preamble_def dict_set_def)
  from remediation_requested_for_every_code_file [OF member kept run] member kept no_issue run
  show ?thesis by blast
qed

text \<open>
  Claim C10. The exclusion of non-code files is a plain suffix test on the whole path: a
  path is skipped (no model call, no entry) exactly when it ends with the characters of
  some entry of the exclusion list. Neither a dot nor a path separator plays a part, so
  the entry \<^verbatim>\<open>py\<close> excludes \<^verbatim>\<open>happy\<close> and the entry \<^verbatim>\<open>s/notes\<close> excludes \<^verbatim>\<open>docs/notes\<close>.
\<close>

theorem non_code_filter_is_suffix_match:
  "is_non_code (JStr p) (JArr (map JStr exts)) = Inr (\<exists>e\<in>set exts. \<exists>pre. p = pre @ e)
   \<and> ((\<exists>e\<in>set exts. \<exists>pre. p = pre @ e) \<longrightarrow>
        analyze_and_remediate_code env [(JStr p, c)] (JArr (map JStr exts)) h = (Inr [], h))
   \<and> (\<not> (\<exists>e\<in>set exts. \<exists>pre. p = pre @ e) \<longrightarrow>
        prefix (h @ [ModelCall (analysis_request c)])
          (snd (analyze_and_remediate_code env [(JStr p, c)] (JArr (map JStr exts)) h)))"
proof -
  have skip: "is_non_code (JStr p) (JArr (map JStr exts))
      = Inr (\<exists>e\<in>set exts. \<exists>pre. p = pre @ e)"
    by (simp add: is_non_code_strings endswith_iff)
  have skipped: "analyze_and_remediate_code env [(JStr p, c)] (JArr (map JStr exts)) h
      = (Inr [], h)" if "\<exists>e\<in>set exts. \<exists>pre. p = pre @ e"
    using that skip by (simp add: analyze_and_remediate_code_def)
  have kept: "prefix (h @ [ModelCall (analysis_request c)])
      (snd (analyze_and_remediate_code env [(JStr p, c)] (JArr (map JStr exts)) h))"
    if "\<not> (\<exists>e\<in>set exts. \<exists>pre. p = pre @ e)"
  proof -
    obtain ra h1 where a: "analyze_code env c h = (ra, h1)" by (cases "analyze_code env c h")
    then have h1: "h1 = h @ [ModelCall (analysis_request c)]" by (rule analyze_code_history)
    show ?thesis
    proof (cases ra)
      case (Inl e)
      with that skip a h1 show ?thesis by (simp add: analyze_and_remediate_code_def)
    next
      case (Inr issues)
      obtain rr h2 where r: "remediate_code env c issues h1 = (rr, h2)"
        by (cases "remediate_code env c issues h1")
      then have "h2 = h1 @ [ModelCall (remediation_request c issues)]"
        by (rule remediate_code_history)
      with that skip a h1 Inr r show ?thesis
        by (cases rr) (auto simp: analyze_and_remediate_code_def dict_set_def)
    qed
  qed
  from skip skipped kept show ?thesis by blast
qed

theorem non_code_filter_is_suffix_match_witness:
  "is_non_code (JStr ''happy'') (JArr (map JStr [''py''])) = Inr True
   \<and> analyze_and_remediate_code (fixed_model ''ok'') [(JStr ''happy'', ''x = 1'')]
        (JArr (map JStr [''py''])) [] = (Inr [], [])
   \<and> is_non_code (JStr ''docs/notes'') (JArr (map JStr [''s/notes''])) = Inr True
   \<and> is_non_code (JStr ''a.py'') (JArr (map JStr [''.md''])) = Inr False
   \<and> prefix ([] @ [ModelCall (analysis_request ''print(1)'')])
        (snd (analyze_and_remediate_code (fixed_model ''ok'') [(JStr ''a.py'', ''print(1)'')]
               (JArr (map JStr [''.md''])) []))"
proof -
  have 1: "\<exists>e\<in>set [''py'']. \<exists>pre. ''happy'' = pre @ e"
    by (simp add: exI [of _ "''hap''"])
  have 2: "\<exists>e\<in>set [''s/notes'']. \<exists>pre. ''docs/notes'' = pre @ e"
    by (simp add: exI [of _ "''doc''"])
  have 3: "\<not> (\<exists>e\<in>set [''.md'']. \<exists>pre. ''a.py'' = pre @ e)"
    using endswith_iff [of "''a.py''" "''.md''"] by (simp add: endswith_def)
  from non_code_filter_is_suffix_match [of "''happy''" "[''py'']" "fixed_model ''ok''" "''x = 1''" "[]"]
    non_code_filter_is_suffix_match [of "''docs/notes''" "[''s/notes'']" "fixed_model ''ok''" "''x''" "[]"]
    non_code_filter_is_suffix_match [of "''a.py''" "[''.md'']" "fixed_model ''ok''" "''print(1)''" "[]"]
    1 2 3
  show ?thesis by simp
qed

section \<open>Properties of the clean-up of a remediation\<close>

lemma no_fence_prefix_after_sub:
  assumes "\<not> prefix fence (c # cs)"
  shows "\<not> prefix fence (c # re_sub_fence cs)"
proof (cases "c = backtick")
  case False
  then show ?thesis by (simp add: fence_def)
next
  case c: True
  show ?thesis
  proof (cases cs)
    case Nil
    then show ?thesis by (simp add: fence_def)
  next
    case (Cons d ds)
    show ?thesis
    proof (cases "d = backtick")
      case False
      with Cons show ?thesis by (simp add: fence_def)
    next
      case d: True
      show ?thesis
      proof (cases ds)
        case Nil
        with Cons d show ?thesis by (simp add: fence_def)
      next
        case ds: (Cons x xs)
        with assms c d Cons have "x \<noteq> backtick" by (auto simp: fence_def)
        with Cons d ds show ?thesis by (simp add: fence_def)
      qed
    qed
  qed
qed

lemma re_sub_fence_no_fence: "\<not> sublist fence (re_sub_fence s)"
proof (induction s rule: re_sub_fence.induct)
  case 1
  then show ?case by (simp add: fence_def)
next
  case (2 c cs)
  show ?case
  proof (cases "prefix fence (c # cs)")
    case True
    with 2 show ?thesis by simp
  next
    case False
    with 2 have "\<not> sublist fence (re_sub_fence cs)" by simp
    moreover from False have "\<not> prefix fence (c # re_sub_fence cs)"
      by (rule no_fence_prefix_after_sub)
    ultimately show ?thesis using False by (simp add: sublist_Cons_right)
  qed
qed

lemma sublist_dropWhile: "sublist (dropWhile P xs) xs"
  by (metis sublist_order.order_refl sublist_append_leftI takeWhile_dropWhile_id)

lemma strip_sublist: "sublist (strip s) s"
proof -
  have "sublist (dropWhile is_space (rev (dropWhile is_space s))) (rev (dropWhile is_space s))"
    by (rule sublist_dropWhile)
  then have "sublist (strip s) (dropWhile is_space s)"
    by (metis strip_def sublist_rev_left)
  then show ?thesis
    using sublist_dropWhile sublist_order.order_trans by blast
qed

lemma remove_all_absent: "old \<noteq> [] \<Longrightarrow> \<not> sublist old s \<Longrightarrow> remove_all old s = s"
proof (induction s)
  case Nil
  then show ?case by simp
next
  case (Cons c cs)
  then show ?case by (auto simp: sublist_Cons_right)
qed

lemma remove_all_leading: "old \<noteq> [] \<Longrightarrow> remove_all old (old @ r) = remove_all old r"
  by (cases old) auto


lemma clean_remediation_no_leftover:
  assumes "\<not> sublist preamble (strip (re_sub_fence completion))
           \<or> (\<exists>rest. strip (re_sub_fence completion) = preamble @ rest \<and> \<not> sublist preamble rest)"
  shows "\<not> sublist fence (clean_remediation completion)
         \<and> \<not> sublist preamble (clean_remediation completion)"
proof -
  let ?t = "strip (re_sub_fence completion)"
  have P: "preamble \<noteq> []" by (simp add: preamble_def)
  have t: "\<not> sublist fence ?t"
    using re_sub_fence_no_fence strip_sublist sublist_order.order_trans by blast
  from assms show ?thesis
  proof
    assume absent: "\<not> sublist preamble ?t"
    with P have "clean_remediation completion = strip ?t"
      by (simp add: clean_remediation_def remove_all_absent)
    with t absent show ?thesis
      using strip_sublist sublist_order.order_trans by metis
  next
    assume "\<exists>rest. ?t = preamble @ rest \<and> \<not> sublist preamble rest"
    then obtain rest where rest: "?t = preamble @ rest" "\<not> sublist preamble rest" by blast
    with P have c: "clean_remediation completion = strip rest"
      by (simp add: clean_remediation_def remove_all_leading remove_all_absent)
    from rest(1) have "sublist rest ?t" by (simp add: sublist_append_leftI)
    with t have "\<not> sublist fence rest"
      using sublist_order.order_trans by blast
    with rest(2) c show ?thesis
      using strip_sublist sublist_order.order_trans by metis
  qed
qed

text \<open>
  Claim C7, as amended. The claim as stated fails: the phrase is deleted after the fence
  markers, in one pass, so a completion that carries backticks on both sides of the
  phrase, or the phrase inside a broken copy of itself, gives a text with a fence marker
  or with the phrase (the counterexample below). What holds for every completion: the
  text left by the fence-stripping step has no fence marker; and when the phrase does not
  occur in that text, or occurs only once at its very start, as a preamble, the text
  returned has neither a fence marker nor the phrase.
\<close>

theorem remediate_code_strips_fences_and_preamble:
  assumes "remediate_code env code issues h = (Inr remediation, h')"
  shows "\<exists>body completion.
           bedrock env h (remediation_request code issues) = Inr body
         \<and> completion_of body = Inr completion
         \<and> remediation = strip (remove_all preamble (strip (re_sub_fence completion)))
         \<and> \<not> sublist fence (strip (re_sub_fence completion))
         \<and> ((\<not> sublist preamble (strip (re_sub_fence completion))
              \<or> (\<exists>rest. strip (re_sub_fence completion) = preamble @ rest
                         \<and> \<not> sublist preamble rest))
             \<longrightarrow> \<not> sublist fence remediation \<and> \<not> sublist preamble remediation)"
proof -
  from assms obtain body completion where
    b: "bedrock env h (remediation_request code issues) = Inr body" and
    c: "completion_of body = Inr completion" and
    r: "remediation = clean_remediation completion"
    by (auto simp: remediate_code_def invoke_model_def split: sum.splits)
  have "\<not> sublist fence (strip (re_sub_fence completion))"
    using re_sub_fence_no_fence strip_sublist sublist_order.order_trans by blast
  with b c r clean_remediation_no_leftover [of completion] show ?thesis
    unfolding clean_remediation_def by blast
qed

theorem remediate_code_output_counterexample:
  "fst (remediate_code (fixed_model ([backtick] @ preamble @ [backtick, backtick]))
          ''print(1)'' [] []) = Inr fence
   \<and> sublist fence fence
   \<and> fst (remediate_code (fixed_model (take 5 preamble @ preamble @ drop 5 preamble))
          ''print(1)'' [] []) = Inr preamble
   \<and> sublist preamble preamble"
  by (simp add: remediate_code_def invoke_model_def fixed_model_def completion_of_def
        strip_def is_space_def clean_remediation_def fence_def backtick_def
        preamble_def is_lower_def)


theorem remediate_code_strips_fences_and_preamble_witness:
  "remediate_code (fixed_model fenced_answer) ''print(1)'' [] []
     = (Inr ''print(2)'', [ModelCall (remediation_request ''print(1)'' [])])
   \<and> strip (re_sub_fence (strip fenced_answer)) = preamble @ ''\<newline>\<newline>print(2)''
   \<and> \<not> sublist preamble ''\<newline>\<newline>print(2)''
   \<and> \<not> sublist fence ''print(2)''
   \<and> \<not> sublist preamble ''print(2)''"
proof -
  have run: "remediate_code (fixed_model fenced_answer) ''print(1)'' [] []
     = (Inr ''print(2)'', [ModelCall (remediation_request ''print(1)'' [])])"
    by (simp add: remediate_code_def invoke_model_def fixed_model_def completion_of_def
          fenced_answer_def strip_def is_space_def clean_remediation_def fence_def backtick_def
          preamble_def is_lower_def)
  have shape: "strip (re_sub_fence (strip fenced_answer)) = preamble @ ''\<newline>\<newline>print(2)''"
    by (simp add: fenced_answer_def strip_def is_space_def fence_def backtick_def
          preamble_def is_lower_def)
  have rest: "\<not> sublist preamble ''\<newline>\<newline>print(2)''"
  proof
    assume "sublist preamble ''\<newline>\<newline>print(2)''"
    then have "length preamble \<le> length ''\<newline>\<newline>print(2)''"
      by (rule sublist_length_le)
    then show False by (simp add: preamble_def)
  qed
  from remediate_code_strips_fences_and_preamble [OF run]
  obtain body completion where
    b: "bedrock (fixed_model fenced_answer) [] (remediation_request ''print(1)'' []) = Inr body"
    and c: "completion_of body = Inr completion"
    and imp: "(\<not> sublist preamble (strip (re_sub_fence completion))
              \<or> (\<exists>rest. strip (re_sub_fence completion) = preamble @ rest
                         \<and> \<not> sublist preamble rest))
             \<longrightarrow> \<not> sublist fence ''print(2)'' \<and> \<not> sublist preamble ''print(2)''"
    by blast
  from b c have "completion = strip fenced_answer"
    by (auto simp: fixed_model_def completion_of_def)
  with shape rest imp have "\<not> sublist fence ''print(2)'' \<and> \<not> sublist preamble ''print(2)''"
    by blast
  with run shape rest show ?thesis by blast
qed

section \<open>Properties of the handler\<close>

text \<open>
  Claim C1. The handler is meant to answer every event with a response envelope and to
  let no exception out. It does not: both \<^verbatim>\<open>except\<close> clauses read the locals
  \<^verbatim>\<open>actionGroup\<close> and \<^verbatim>\<open>function\<close> and the key \<^verbatim>\<open>messageVersion\<close> again, so an event that
  lacks one of them raises from inside the clause. For the event of an action group
  defined by an API schema, which has no \<^verbatim>\<open>function\<close>, the handler ends in an
  \<^verbatim>\<open>UnboundLocalError\<close>, whatever the environment.
\<close>

theorem lambda_handler_raises_on_api_schema_event:
  "lambda_handler depth env api_schema_event h = Some (Inl (UnboundLocalError ''function''), h)"
  by (simp add: lambda_handler_def api_schema_event_def except_clause_def)

text \<open>The same for the empty event: here \<^verbatim>\<open>actionGroup\<close> is the unbound local.\<close>

lemma lambda_handler_raises_on_empty_event:
  "lambda_handler depth env (JObj []) h = Some (Inl (UnboundLocalError ''actionGroup''), h)"
  by (simp add: lambda_handler_def except_clause_def)

text \<open>
  Claim C2. An event without the parameter \<^verbatim>\<open>repository_url\<close> should be answered with
  "Missing required information" and the name of the key. The parameters are read with
  \<^verbatim>\<open>properties.get\<close>, which raises no \<^verbatim>\<open>KeyError\<close>: the link is \<^verbatim>\<open>None\<close>, the fetcher
  fails on it with a \<^verbatim>\<open>TypeError\<close> before any request is sent, and the response is the
  generic "Error: ..." text, in which neither the phrase nor the key occurs.
\<close>

theorem lambda_handler_without_repository_url:
  "lambda_handler (Suc depth) env no_repository_url_event h
     = Some (Inr (envelope (JStr ''repository'') (JStr ''remediate'')
                    (JStr (''Error: a bytes-like object is required, not ''
                           @ [quote] @ ''str'' @ [quote]))
                    (JStr ''1.0'')), h)"
  by (simp add: lambda_handler_def no_repository_url_event_def except_clause_def
        run_pipeline_def dict_set_def properties_get_def)

text \<open>
  What the handler does guarantee: for an event that carries \<^verbatim>\<open>agent\<close>, \<^verbatim>\<open>actionGroup\<close>,
  \<^verbatim>\<open>function\<close> and \<^verbatim>\<open>messageVersion\<close>, every exception of the pipeline is turned into
  a response, and whatever is returned is an envelope that echoes the action group, the
  function and the message version. (\<open>None\<close> is the fetcher that did not come back
  within the depth given.)
\<close>

theorem lambda_handler_envelope_when_identified:
  assumes "py_getitem event ''agent'' = Inr agent"
    and "py_getitem event ''actionGroup'' = Inr action_group"
    and "py_getitem event ''function'' = Inr func"
    and "py_getitem event ''messageVersion'' = Inr mv"
  shows "lambda_handler depth env event h = None
         \<or> (\<exists>body h'. lambda_handler depth env event h
                        = Some (Inr (envelope action_group func body mv), h'))"
proof (cases "run_pipeline depth env event h")
  case None
  with assms show ?thesis by (simp add: lambda_handler_def)
next
  case (Some res)
  obtain r h' where res: "res = (r, h')" by (cases res)
  show ?thesis
  proof (cases r)
    case (Inl e)
    with assms Some res show ?thesis
      by (auto simp: lambda_handler_def except_clause_def)
  next
    case (Inr new_branch)
    with assms Some res show ?thesis
      by (auto simp: lambda_handler_def)
  qed
qed

theorem lambda_handler_envelope_when_identified_witness:
  "py_getitem no_repository_url_event ''agent'' = Inr (JObj [(''name'', JStr ''remediator'')])
   \<and> py_getitem no_repository_url_event ''actionGroup'' = Inr (JStr ''repository'')
   \<and> py_getitem no_repository_url_event ''function'' = Inr (JStr ''remediate'')
   \<and> py_getitem no_repository_url_event ''messageVersion'' = Inr (JStr ''1.0'')
   \<and> lambda_handler 1 sample_hosting no_repository_url_event [] \<noteq> None
   \<and> (\<exists>body h'. lambda_handler 1 sample_hosting no_repository_url_event []
                   = Some (Inr (envelope (JStr ''repository'') (JStr ''remediate'') body
                                  (JStr ''1.0'')), h'))"
proof -
  have a: "py_getitem no_repository_url_event ''agent'' = Inr (JObj [(''name'', JStr ''remediator'')])"
    and b: "py_getitem no_repository_url_event ''actionGroup'' = Inr (JStr ''repository'')"
    and c: "py_getitem no_repository_url_event ''function'' = Inr (JStr ''remediate'')"
    and d: "py_getitem no_repository_url_event ''messageVersion'' = Inr (JStr ''1.0'')"
    by (simp_all add: no_repository_url_event_def)
  have e: "lambda_handler 1 sample_hosting no_repository_url_event [] \<noteq> None"
    by (simp add: lambda_handler_def no_repository_url_event_def except_clause_def
          run_pipeline_def dict_set_def properties_get_def)
  from lambda_handler_envelope_when_identified [OF a b c d, of 1 sample_hosting "[]"] a b c d e
  show ?thesis by blast
qed

section \<open>Properties of the publisher\<close>

text \<open>
  Claim C3. When the hosting API answers the existence check for the new branch name
  with status 200, \<^verbatim>\<open>create_new_branch\<close> fails, and all it has sent by then are reads:
  the lookup of the base branch and the existence check itself. No ref, blob, tree or
  commit is written. (If the base branch does not resolve, the failure comes one call
  earlier.)
\<close>

theorem create_new_branch_refuses_existing_branch:
  assumes "repo_path_of env (repository_link event) = Inr repo_path"
    and "http env (h @ [HttpCall (get_request (RefUrl repo_path (base_branch event)))])
           (get_request (RefUrl repo_path (new_branch_name event))) = Inr existing"
    and "status_code existing = 200"
  shows "\<exists>e h'. create_new_branch env event h = (Inl e, h')
           \<and> (h' = h @ [HttpCall (get_request (RefUrl repo_path (base_branch event)))]
              \<or> h' = h @ [HttpCall (get_request (RefUrl repo_path (base_branch event))),
                          HttpCall (get_request (RefUrl repo_path (new_branch_name event)))]
                \<and> e = ValueError (''Branch '' @ py_str (new_branch_name event)
                                   @ '' already exists.''))"
proof (cases "http env h (get_request (RefUrl repo_path (base_branch event)))")
  case (Inl e)
  with assms(1) show ?thesis
    by (simp add: create_new_branch_def requests_def)
next
  case (Inr base_ref)
  show ?thesis
  proof (cases "object_sha_of base_ref")
    case (Inl e)
    with assms(1) Inr show ?thesis
      by (simp add: create_new_branch_def requests_def)
  next
    case sha: (Inr base_commit)
    with assms Inr show ?thesis
      by (simp add: create_new_branch_def requests_def)
  qed
qed

theorem create_new_branch_refuses_existing_branch_witness:
  "repo_path_of sample_hosting (repository_link (sample_publish (JStr ''main''))) = Inr ''o/r''
   \<and> http sample_hosting ([] @ [HttpCall (get_request (RefUrl ''o/r'' (JStr ''main'')))])
        (get_request (RefUrl ''o/r'' (JStr ''main'')))
      = Inr (ok_json (JObj [(''ref'', JStr ''refs/heads/main''),
                            (''object'', JObj [(''sha'', JStr ''C1'')])]))
   \<and> create_new_branch sample_hosting (sample_publish (JStr ''main'')) []
      = (Inl (ValueError ''Branch main already exists.''),
         [HttpCall (get_request (RefUrl ''o/r'' (JStr ''main''))),
          HttpCall (get_request (RefUrl ''o/r'' (JStr ''main'')))])"
proof -
  have rp: "repo_path_of sample_hosting (repository_link (sample_publish (JStr ''main'')))
      = Inr ''o/r''"
    by (simp add: sample_hosting_def sample_publish_def strip_slash_def)
  have ex: "http sample_hosting
      ([] @ [HttpCall (get_request (RefUrl ''o/r'' (base_branch (sample_publish (JStr ''main'')))))])
      (get_request (RefUrl ''o/r'' (new_branch_name (sample_publish (JStr ''main'')))))
      = Inr (ok_json (JObj [(''ref'', JStr ''refs/heads/main''),
                            (''object'', JObj [(''sha'', JStr ''C1'')])]))"
    by (simp add: sample_hosting_def sample_publish_def sample_http_def get_request_def)
  have st: "status_code (ok_json (JObj [(''ref'', JStr ''refs/heads/main''),
                            (''object'', JObj [(''sha'', JStr ''C1'')])])) = 200"
    by (simp add: ok_json_def)
  have run: "create_new_branch sample_hosting (sample_publish (JStr ''main'')) []
      = (Inl (ValueError ''Branch main already exists.''),
         [HttpCall (get_request (RefUrl ''o/r'' (JStr ''main''))),
          HttpCall (get_request (RefUrl ''o/r'' (JStr ''main'')))])"
    using create_new_branch_refuses_existing_branch [OF rp ex st]
    by (auto simp: sample_publish_def create_new_branch_def requests_def sample_hosting_def
          sample_http_def get_request_def strip_slash_def object_sha_of_def ok_json_def)
  from rp ex run show ?thesis by (simp add: sample_publish_def)
qed


lemma response_to_append:
  "i < length hs \<Longrightarrow> response_to env (hs @ later) i = response_to env hs i"
  by (cases "hs ! i") (simp_all add: response_to_def nth_append)

lemma response_to_last:
  "response_to env (hs @ HttpCall req # later) (length hs) = http env hs req"
  by (simp add: response_to_def)

lemma response_to_at:
  "i = length hs \<Longrightarrow> response_to env (hs @ HttpCall req # later) i = http env hs req"
  by (simp add: response_to_def)

lemma create_blobs_trace:
  "create_blobs env repo_path rem blobs h = (Inr blobs', h') \<Longrightarrow>
     \<exists>shas. length shas = length rem
       \<and> blobs' = blobs @ map2 tree_entry (map fst rem) shas
       \<and> h' = h @ blob_calls env repo_path rem
       \<and> (\<forall>i<length rem. \<exists>r. response_to env h' (length h + i) = Inr r
                               \<and> sha_of r = Inr (shas ! i))"
proof (induction rem arbitrary: blobs h)
  case Nil
  then show ?case by (simp add: blob_calls_def)
next
  case (Cons item rem)
  obtain k c where item: "item = (k, c)" by (cases item)
  let ?call = "HttpCall (post_request (BlobsUrl repo_path) (blob_payload env c))"
  from Cons.prems item obtain r sha where
    r: "http env h (post_request (BlobsUrl repo_path) (blob_payload env c)) = Inr r" and
    sha: "sha_of r = Inr sha" and
    run: "create_blobs env repo_path rem (blobs @ [tree_entry k sha]) (h @ [?call])
            = (Inr blobs', h')"
    by (auto simp: requests_def split: sum.splits)
  from Cons.IH [OF run] obtain shas where
    len: "length shas = length rem" and
    bl: "blobs' = (blobs @ [tree_entry k sha]) @ map2 tree_entry (map fst rem) shas" and
    h': "h' = (h @ [?call]) @ blob_calls env repo_path rem" and
    each: "\<forall>i<length rem. \<exists>r. response_to env h' (length (h @ [?call]) + i) = Inr r
                               \<and> sha_of r = Inr (shas ! i)"
    by blast
  have "\<forall>i<length (item # rem). \<exists>r. response_to env h' (length h + i) = Inr r
                               \<and> sha_of r = Inr ((sha # shas) ! i)"
  proof (intro allI impI)
    fix i
    assume i: "i < length (item # rem)"
    show "\<exists>r. response_to env h' (length h + i) = Inr r \<and> sha_of r = Inr ((sha # shas) ! i)"
    proof (cases i)
      case 0
      with h' r sha show ?thesis by (simp add: response_to_last)
    next
      case (Suc j)
      with i each show ?thesis by auto
    qed
  qed
  moreover from len have "length (sha # shas) = length (item # rem)" by simp
  moreover from bl item have "blobs' = blobs @ map2 tree_entry (map fst (item # rem)) (sha # shas)"
    by simp
  moreover from h' item have "h' = h @ blob_calls env repo_path (item # rem)"
    by (simp add: blob_calls_def)
  ultimately show ?case by blast
qed


lemma create_new_branch_trace:
  assumes "create_new_branch env event h = (Inr result, h')"
  shows "\<exists>repo_path base_ref base_commit blob_shas base_tree base_tree_sha new_tree new_tree_sha
            new_commit new_commit_sha.
           repo_path_of env (repository_link event) = Inr repo_path
         \<and> result = new_branch_name event
         \<and> length blob_shas = length (remediations event)
         \<and> h' = h @ [HttpCall (get_request (RefUrl repo_path (base_branch event))),
                     HttpCall (get_request (RefUrl repo_path (new_branch_name event))),
                     HttpCall (post_request (RefsUrl repo_path)
                       (JObj [(''ref'', JStr (''refs/heads/'' @ py_str (new_branch_name event))),
                              (''sha'', base_commit)]))]
                @ blob_calls env repo_path (remediations event)
                @ [HttpCall (get_request (TreeUrl repo_path base_commit)),
                   HttpCall (post_request (TreesUrl repo_path)
                     (JObj [(''base_tree'', base_tree_sha),
                            (''tree'', JArr (map2 tree_entry (map fst (remediations event))
                                              blob_shas))])),
                   HttpCall (post_request (CommitsUrl repo_path)
                     (JObj [(''message'', JStr ''Remediated code''), (''tree'', new_tree_sha),
                            (''parents'', JArr [base_commit])])),
                   HttpCall (patch_request (RefUrl repo_path (new_branch_name event))
                     (JObj [(''sha'', new_commit_sha)]))]
         \<and> response_to env h' (length h) = Inr base_ref
         \<and> object_sha_of base_ref = Inr base_commit
         \<and> (\<forall>i<length (remediations event).
               \<exists>r. response_to env h' (length h + 3 + i) = Inr r \<and> sha_of r = Inr (blob_shas ! i))
         \<and> response_to env h' (length h + 3 + length (remediations event)) = Inr base_tree
         \<and> sha_of base_tree = Inr base_tree_sha
         \<and> response_to env h' (length h + 4 + length (remediations event)) = Inr new_tree
         \<and> sha_of new_tree = Inr new_tree_sha
         \<and> response_to env h' (length h + 5 + length (remediations event)) = Inr new_commit
         \<and> sha_of new_commit = Inr new_commit_sha"
proof -
  let ?n = "length (remediations event)"
  from assms obtain rp where rp: "repo_path_of env (repository_link event) = Inr rp"
    by (auto simp: create_new_branch_def split: sum.splits)
  let ?A = "get_request (RefUrl rp (base_branch event))"
  let ?B = "get_request (RefUrl rp (new_branch_name event))"
  from assms rp obtain base_ref base_commit where
    a: "http env h ?A = Inr base_ref" and bc: "object_sha_of base_ref = Inr base_commit"
    by (auto simp: create_new_branch_def requests_def split: sum.splits)
  let ?C = "post_request (RefsUrl rp)
              (JObj [(''ref'', JStr (''refs/heads/'' @ py_str (new_branch_name event))),
                     (''sha'', base_commit)])"
  let ?h3 = "h @ [HttpCall ?A, HttpCall ?B, HttpCall ?C]"
  obtain rb h4 where blobs0: "create_blobs env rp (remediations event) [] ?h3 = (rb, h4)"
    by (cases "create_blobs env rp (remediations event) [] ?h3")
  with assms rp a bc obtain blobs where "rb = Inr blobs"
    by (auto simp: create_new_branch_def requests_def split: sum.splits if_splits)
  with blobs0 have blobs: "create_blobs env rp (remediations event) [] ?h3 = (Inr blobs, h4)"
    by simp
  from create_blobs_trace [OF blobs] obtain shas where
    len: "length shas = ?n" and
    bl: "blobs = map2 tree_entry (map fst (remediations event)) shas" and
    h4: "h4 = ?h3 @ blob_calls env rp (remediations event)" and
    each: "\<forall>i<?n. \<exists>r. response_to env h4 (length ?h3 + i) = Inr r \<and> sha_of r = Inr (shas ! i)"
    by auto
  let ?D = "get_request (TreeUrl rp base_commit)"
  from assms rp a bc blobs obtain base_tree bts where
    d: "http env h4 ?D = Inr base_tree" and bts: "sha_of base_tree = Inr bts"
    by (auto simp: create_new_branch_def requests_def split: sum.splits if_splits)
  let ?E = "post_request (TreesUrl rp) (JObj [(''base_tree'', bts), (''tree'', JArr blobs)])"
  from assms rp a bc blobs d bts obtain new_tree nts where
    e: "http env (h4 @ [HttpCall ?D]) ?E = Inr new_tree" and nts: "sha_of new_tree = Inr nts"
    by (auto simp: create_new_branch_def requests_def split: sum.splits if_splits)
  let ?F = "post_request (CommitsUrl rp)
              (JObj [(''message'', JStr ''Remediated code''), (''tree'', nts),
                     (''parents'', JArr [base_commit])])"
  from assms rp a bc blobs d bts e nts obtain new_commit ncs where
    f: "http env (h4 @ [HttpCall ?D, HttpCall ?E]) ?F = Inr new_commit" and
    ncs: "sha_of new_commit = Inr ncs"
    by (auto simp: create_new_branch_def requests_def split: sum.splits if_splits)
  let ?G = "patch_request (RefUrl rp (new_branch_name event)) (JObj [(''sha'', ncs)])"
  from assms rp a bc blobs d bts e nts f ncs have
    fin: "h' = h4 @ [HttpCall ?D, HttpCall ?E, HttpCall ?F, HttpCall ?G]" and
    res: "result = new_branch_name event"
    by (auto simp: create_new_branch_def requests_def split: sum.splits if_splits)
  have lh4: "length h4 = length h + 3 + ?n"
    by (simp add: h4 blob_calls_def)
  have r0: "response_to env h' (length h) = Inr base_ref"
    using a by (simp add: fin h4 response_to_last)
  have rblob: "\<forall>i<?n. \<exists>r. response_to env h' (length h + 3 + i) = Inr r
                               \<and> sha_of r = Inr (shas ! i)"
  proof (intro allI impI)
    fix i assume i: "i < ?n"
    with each obtain r where
      r: "response_to env h4 (length ?h3 + i) = Inr r" "sha_of r = Inr (shas ! i)" by blast
    from i lh4 have "length ?h3 + i < length h4" by simp
    then have "response_to env h' (length ?h3 + i) = response_to env h4 (length ?h3 + i)"
      unfolding fin by (rule response_to_append)
    moreover have "length h + 3 + i = length ?h3 + i" by simp
    ultimately have "response_to env h' (length h + 3 + i) = response_to env h4 (length ?h3 + i)"
      by (simp only:)
    with r show "\<exists>r. response_to env h' (length h + 3 + i) = Inr r \<and> sha_of r = Inr (shas ! i)"
      by (simp only: exI [of _ r])
  qed
  have "response_to env (h4 @ HttpCall ?D # [HttpCall ?E, HttpCall ?F, HttpCall ?G])
          (length h + 3 + ?n) = http env h4 ?D"
    by (rule response_to_at) (simp add: lh4)
  with d have r1: "response_to env h' (length h + 3 + ?n) = Inr base_tree"
    by (simp add: fin)
  have "response_to env ((h4 @ [HttpCall ?D]) @ HttpCall ?E # [HttpCall ?F, HttpCall ?G])
          (length h + 4 + ?n) = http env (h4 @ [HttpCall ?D]) ?E"
    by (rule response_to_at) (simp add: lh4)
  with e have r2: "response_to env h' (length h + 4 + ?n) = Inr new_tree"
    by (simp add: fin)
  have "response_to env ((h4 @ [HttpCall ?D, HttpCall ?E]) @ HttpCall ?F # [HttpCall ?G])
          (length h + 5 + ?n) = http env (h4 @ [HttpCall ?D, HttpCall ?E]) ?F"
    by (rule response_to_at) (simp add: lh4)
  with f have r3: "response_to env h' (length h + 5 + ?n) = Inr new_commit"
    by (simp add: fin)
  from fin h4 bl have trace: "h' = h @ [HttpCall ?A, HttpCall ?B, HttpCall ?C]
      @ blob_calls env rp (remediations event)
      @ [HttpCall ?D,
         HttpCall (post_request (TreesUrl rp)
           (JObj [(''base_tree'', bts),
                  (''tree'', JArr (map2 tree_entry (map fst (remediations event)) shas))])),
         HttpCall ?F, HttpCall ?G]"
    by simp
  from rp res len trace r0 bc rblob r1 bts r2 nts r3 ncs show ?thesis
    by blast
qed


text \<open>
  Claim C9. A publish that succeeds has sent exactly these calls, in this order: the two
  reads of the refs, the creation of the new ref at the base commit, one blob for each
  remediated file, the read of the base commit's tree, a new tree whose \<^verbatim>\<open>base_tree\<close> is
  the sha that read returned and whose entries are the files' paths with mode
  \<^verbatim>\<open>100644\<close> and the shas the blob uploads returned, a commit on the sha the tree
  creation returned with the base commit as its only parent, and the update of the new
  ref, a \<^verbatim>\<open>PATCH\<close> whose payload is the sha the commit creation returned. Every call is
  written out with its verb, its endpoint and its payload.
\<close>

theorem create_new_branch_publishes_on_base:
  assumes "create_new_branch env event h = (Inr result, h')"
  shows "\<exists>repo_path base_commit blob_shas base_tree_sha new_tree_sha new_commit_sha.
           repo_path_of env (repository_link event) = Inr repo_path
         \<and> result = new_branch_name event
         \<and> length blob_shas = length (remediations event)
         \<and> h' = h
              @ [HttpCall \<lparr>verb = GET, url = RefUrl repo_path (base_branch event),
                           payload = None\<rparr>,
                 HttpCall \<lparr>verb = GET, url = RefUrl repo_path (new_branch_name event),
                           payload = None\<rparr>,
                 HttpCall \<lparr>verb = POST, url = RefsUrl repo_path,
                           payload = Some (JObj
                             [(''ref'', JStr (''refs/heads/'' @ py_str (new_branch_name event))),
                              (''sha'', base_commit)])\<rparr>]
              @ map (\<lambda>file. HttpCall \<lparr>verb = POST, url = BlobsUrl repo_path,
                          payload = Some (JObj
                            [(''content'', JStr (b64encode env (snd file))),
                             (''encoding'', JStr ''base64'')])\<rparr>)
                  (remediations event)
              @ [HttpCall \<lparr>verb = GET, url = TreeUrl repo_path base_commit, payload = None\<rparr>,
                 HttpCall \<lparr>verb = POST, url = TreesUrl repo_path,
                           payload = Some (JObj
                             [(''base_tree'', base_tree_sha),
                              (''tree'',
                               JArr (map2 (\<lambda>path sha.
                                             JObj [(''path'', path), (''mode'', JStr ''100644''),
                                                   (''type'', JStr ''blob''), (''sha'', sha)])
                                       (map fst (remediations event)) blob_shas))])\<rparr>,
                 HttpCall \<lparr>verb = POST, url = CommitsUrl repo_path,
                           payload = Some (JObj
                             [(''message'', JStr ''Remediated code''), (''tree'', new_tree_sha),
                              (''parents'', JArr [base_commit])])\<rparr>,
                 HttpCall \<lparr>verb = PATCH, url = RefUrl repo_path (new_branch_name event),
                           payload = Some (JObj [(''sha'', new_commit_sha)])\<rparr>]
         \<and> (\<exists>r v ob. response_to env h' (length h) = Inr r \<and> json_body r = Inr v
                \<and> py_getitem v ''object'' = Inr ob \<and> py_getitem ob ''sha'' = Inr base_commit)
         \<and> (\<forall>i<length (remediations event).
               \<exists>r v. response_to env h' (length h + 3 + i) = Inr r \<and> json_body r = Inr v
                     \<and> py_getitem v ''sha'' = Inr (blob_shas ! i))
         \<and> (\<exists>r v. response_to env h' (length h + 3 + length (remediations event)) = Inr r
                \<and> json_body r = Inr v \<and> py_getitem v ''sha'' = Inr base_tree_sha)
         \<and> (\<exists>r v. response_to env h' (length h + 4 + length (remediations event)) = Inr r
                \<and> json_body r = Inr v \<and> py_getitem v ''sha'' = Inr new_tree_sha)
         \<and> (\<exists>r v. response_to env h' (length h + 5 + length (remediations event)) = Inr r
                \<and> json_body r = Inr v \<and> py_getitem v ''sha'' = Inr new_commit_sha)"
proof -
  from create_new_branch_trace [OF assms] obtain repo_path base_ref base_commit blob_shas
      base_tree base_tree_sha new_tree new_tree_sha new_commit new_commit_sha where
    rp: "repo_path_of env (repository_link event) = Inr repo_path" and
    res: "result = new_branch_name event" and
    len: "length blob_shas = length (remediations event)" and
    trace: "h' = h @ [HttpCall (get_request (RefUrl repo_path (base_branch event))),
                     HttpCall (get_request (RefUrl repo_path (new_branch_name event))),
                     HttpCall (post_request (RefsUrl repo_path)
                       (JObj [(''ref'', JStr (''refs/heads/'' @ py_str (new_branch_name event))),
                              (''sha'', base_commit)]))]
                @ blob_calls env repo_path (remediations event)
                @ [HttpCall (get_request (TreeUrl repo_path base_commit)),
                   HttpCall (post_request (TreesUrl repo_path)
                     (JObj [(''base_tree'', base_tree_sha),
                            (''tree'', JArr (map2 tree_entry (map fst (remediations event))
                                              blob_shas))])),
                   HttpCall (post_request (CommitsUrl repo_path)
                     (JObj [(''message'', JStr ''Remediated code''), (''tree'', new_tree_sha),
                            (''parents'', JArr [base_commit])])),
                   HttpCall (patch_request (RefUrl repo_path (new_branch_name event))
                     (JObj [(''sha'', new_commit_sha)]))]" and
    r0: "response_to env h' (length h) = Inr base_ref" and
    bc: "object_sha_of base_ref = Inr base_commit" and
    rblob: "\<forall>i<length (remediations event).
               \<exists>r. response_to env h' (length h + 3 + i) = Inr r \<and> sha_of r = Inr (blob_shas ! i)" and
    r1: "response_to env h' (length h + 3 + length (remediations event)) = Inr base_tree" and
    bts: "sha_of base_tree = Inr base_tree_sha" and
    r2: "response_to env h' (length h + 4 + length (remediations event)) = Inr new_tree" and
    nts: "sha_of new_tree = Inr new_tree_sha" and
    r3: "response_to env h' (length h + 5 + length (remediations event)) = Inr new_commit" and
    ncs: "sha_of new_commit = Inr new_commit_sha"
    by blast
  have sha: "sha_of r = Inr x \<Longrightarrow> \<exists>v. json_body r = Inr v \<and> py_getitem v ''sha'' = Inr x"
    for r x
    by (auto simp: sha_of_def split: sum.splits)
  from bc have base: "\<exists>v ob. json_body base_ref = Inr v \<and> py_getitem v ''object'' = Inr ob
      \<and> py_getitem ob ''sha'' = Inr base_commit"
    by (auto simp: object_sha_of_def split: sum.splits)
  from trace have trace': "h' = h
              @ [HttpCall \<lparr>verb = GET, url = RefUrl repo_path (base_branch event),
                           payload = None\<rparr>,
                 HttpCall \<lparr>verb = GET, url = RefUrl repo_path (new_branch_name event),
                           payload = None\<rparr>,
                 HttpCall \<lparr>verb = POST, url = RefsUrl repo_path,
                           payload = Some (JObj
                             [(''ref'', JStr (''refs/heads/'' @ py_str (new_branch_name event))),
                              (''sha'', base_commit)])\<rparr>]
              @ map (\<lambda>file. HttpCall \<lparr>verb = POST, url = BlobsUrl repo_path,
                          payload = Some (JObj
                            [(''content'', JStr (b64encode env (snd file))),
                             (''encoding'', JStr ''base64'')])\<rparr>)
                  (remediations event)
              @ [HttpCall \<lparr>verb = GET, url = TreeUrl repo_path base_commit, payload = None\<rparr>,
                 HttpCall \<lparr>verb = POST, url = TreesUrl repo_path,
                           payload = Some (JObj
                             [(''base_tree'', base_tree_sha),
                              (''tree'',
                               JArr (map2 (\<lambda>path sha.
                                             JObj [(''path'', path), (''mode'', JStr ''100644''),
                                                   (''type'', JStr ''blob''), (''sha'', sha)])
                                       (map fst (remediations event)) blob_shas))])\<rparr>,
                 HttpCall \<lparr>verb = POST, url = CommitsUrl repo_path,
                           payload = Some (JObj
                             [(''message'', JStr ''Remediated code''), (''tree'', new_tree_sha),
                              (''parents'', JArr [base_commit])])\<rparr>,
                 HttpCall \<lparr>verb = PATCH, url = RefUrl repo_path (new_branch_name event),
                           payload = Some (JObj [(''sha'', new_commit_sha)])\<rparr>]"
    by (simp add: get_request_def post_request_def patch_request_def blob_calls_def
          blob_payload_def tree_entry_def)
  from rblob sha have rblob': "\<forall>i<length (remediations event).
               \<exists>r v. response_to env h' (length h + 3 + i) = Inr r \<and> json_body r = Inr v
                     \<and> py_getitem v ''sha'' = Inr (blob_shas ! i)"
    by blast
  from rp res len trace' r0 base rblob' r1 sha [OF bts] r2 sha [OF nts] r3 sha [OF ncs]
  show ?thesis by blast
qed

theorem create_new_branch_publishes_on_base_witness:
  "create_new_branch sample_hosting (sample_publish (JStr ''fix/1'')) []
     = (Inr (JStr ''fix/1''), sample_trace)
   \<and> (\<exists>repo_path base_commit blob_shas base_tree_sha new_tree_sha new_commit_sha.
           repo_path_of sample_hosting (repository_link (sample_publish (JStr ''fix/1''))) = Inr repo_path
         \<and> JStr ''fix/1'' = new_branch_name (sample_publish (JStr ''fix/1''))
         \<and> length blob_shas = length (remediations (sample_publish (JStr ''fix/1'')))
         \<and> sample_trace = ([] :: history)
              @ [HttpCall \<lparr>verb = GET, url = RefUrl repo_path (base_branch (sample_publish (JStr ''fix/1''))),
                           payload = None\<rparr>,
                 HttpCall \<lparr>verb = GET, url = RefUrl repo_path (new_branch_name (sample_publish (JStr ''fix/1''))),
                           payload = None\<rparr>,
                 HttpCall \<lparr>verb = POST, url = RefsUrl repo_path,
                           payload = Some (JObj
                             [(''ref'', JStr (''refs/heads/'' @ py_str (new_branch_name (sample_publish (JStr ''fix/1''))))),
                              (''sha'', base_commit)])\<rparr>]
              @ map (\<lambda>file. HttpCall \<lparr>verb = POST, url = BlobsUrl repo_path,
                          payload = Some (JObj
                            [(''content'', JStr (b64encode sample_hosting (snd file))),
                             (''encoding'', JStr ''base64'')])\<rparr>)
                  (remediations (sample_publish (JStr ''fix/1'')))
              @ [HttpCall \<lparr>verb = GET, url = TreeUrl repo_path base_commit, payload = None\<rparr>,
                 HttpCall \<lparr>verb = POST, url = TreesUrl repo_path,
                           payload = Some (JObj
                             [(''base_tree'', base_tree_sha),
                              (''tree'',
                               JArr (map2 (\<lambda>path sha.
                                             JObj [(''path'', path), (''mode'', JStr ''100644''),
                                                   (''type'', JStr ''blob''), (''sha'', sha)])
                                       (map fst (remediations (sample_publish (JStr ''fix/1'')))) blob_shas))])\<rparr>,
                 HttpCall \<lparr>verb = POST, url = CommitsUrl repo_path,
                           payload = Some (JObj
                             [(''message'', JStr ''Remediated code''), (''tree'', new_tree_sha),
                              (''parents'', JArr [base_commit])])\<rparr>,
                 HttpCall \<lparr>verb = PATCH, url = RefUrl repo_path (new_branch_name (sample_publish (JStr ''fix/1''))),
                           payload = Some (JObj [(''sha'', new_commit_sha)])\<rparr>]
         \<and> (\<exists>r v ob. response_to sample_hosting sample_trace (length ([] :: history)) = Inr r \<and> json_body r = Inr v
                \<and> py_getitem v ''object'' = Inr ob \<and> py_getitem ob ''sha'' = Inr base_commit)
         \<and> (\<forall>i<length (remediations (sample_publish (JStr ''fix/1''))).
               \<exists>r v. response_to sample_hosting sample_trace (length ([] :: history) + 3 + i) = Inr r \<and> json_body r = Inr v
                     \<and> py_getitem v ''sha'' = Inr (blob_shas ! i))
         \<and> (\<exists>r v. response_to sample_hosting sample_trace (length ([] :: history) + 3 + length (remediations (sample_publish (JStr ''fix/1'')))) = Inr r
                \<and> json_body r = Inr v \<and> py_getitem v ''sha'' = Inr base_tree_sha)
         \<and> (\<exists>r v. response_to sample_hosting sample_trace (length ([] :: history) + 4 + length (remediations (sample_publish (JStr ''fix/1'')))) = Inr r
                \<and> json_body r = Inr v \<and> py_getitem v ''sha'' = Inr new_tree_sha)
         \<and> (\<exists>r v. response_to sample_hosting sample_trace (length ([] :: history) + 5 + length (remediations (sample_publish (JStr ''fix/1'')))) = Inr r
                \<and> json_body r = Inr v \<and> py_getitem v ''sha'' = Inr new_commit_sha))"
proof -
  have run: "create_new_branch sample_hosting (sample_publish (JStr ''fix/1'')) []
     = (Inr (JStr ''fix/1''), sample_trace)"
    by (simp add: create_new_branch_def requests_def sample_hosting_def sample_publish_def
          sample_http_def sample_trace_def get_request_def post_request_def patch_request_def
          object_sha_of_def sha_of_def ok_json_def created_json_def not_found_def
          blob_payload_def tree_entry_def strip_slash_def)
  from run create_new_branch_publishes_on_base [OF run] show ?thesis
    by (rule conjI)
qed

section \<open>Properties of the fetcher\<close>

text \<open>
  Claim C6. Every remote call that is answered with a failure status should abort the
  fetch. The listing is checked with \<^verbatim>\<open>raise_for_status\<close>; the download of a file is not:
  its \<^verbatim>\<open>.text\<close> is stored whatever the status. Against a hosting API that lists
  \<^verbatim>\<open>a.py\<close> and answers its download with 404, the fetch returns a FileMap in which the
  body of the error page stands as the content of \<^verbatim>\<open>a.py\<close>.
\<close>

theorem fetch_keeps_failed_download:
  "fetch_repository_contents (Suc depth) dangling_hosting (JStr ''https://github.com/o/r'')
      (JStr ''main'') (JStr []) JNull []
     = Some (Inr [(JStr ''a.py'', ''404: Not Found'')],
             [HttpCall (get_request (ContentsUrl ''o/r'' (JStr []) (JStr ''main''))),
              HttpCall (get_request (RawUrl (JStr ''https://raw.githubusercontent.com/o/r/main/a.py'')))])
   \<and> response_to dangling_hosting
        [HttpCall (get_request (ContentsUrl ''o/r'' (JStr []) (JStr ''main''))),
         HttpCall (get_request (RawUrl (JStr ''https://raw.githubusercontent.com/o/r/main/a.py'')))] 1 = Inr not_found
   \<and> status_code not_found = 404"
  by (simp add: dangling_hosting_def dangling_http_def requests_def get_request_def
        strip_slash_def listing_of_def ok_json_def raise_for_status_def is_excluded_def
        dict_set_def not_found_def response_to_def)

lemma height_le_listing: "e \<in> set entries \<Longrightarrow> height e \<le> foldr max (map height entries) 0"
  by (induction entries) auto

lemma is_excluded_names:
  "is_excluded (JArr (map JStr excluded)) name = Inr (name \<in> set excluded)"
  by (auto simp: is_excluded_def)

lemma map_of_dict_update:
  "map_of (dict_update d other) = map_of d ++ map_of (rev other)"
  unfolding dict_update_def
proof (induction other arbitrary: d)
  case Nil
  then show ?case by simp
next
  case (Cons kv other)
  have "map_of (fold (\<lambda>kv. AList.update (fst kv) (snd kv)) other (AList.update (fst kv) (snd kv) d))
      = map_of (AList.update (fst kv) (snd kv) d) ++ map_of (rev other)"
    by (rule Cons.IH)
  also have "\<dots> = map_of d ++ map_of (rev (kv # other))"
    by (cases kv) (simp add: update_conv' map_add_upd_left)
  finally show ?case by simp
qed


lemma outside_excluded_append:
  "outside_excluded ex (xs @ ys) = outside_excluded ex xs @ outside_excluded ex ys"
  by (simp add: outside_excluded_def)

lemma outside_excluded_concat:
  "outside_excluded ex (concat xss) = concat (map (outside_excluded ex) xss)"
  by (induction xss) (simp_all add: outside_excluded_append, simp add: outside_excluded_def)

lemma outside_excluded_under:
  "outside_excluded ex (map (\<lambda>f. (name # fst f, snd f)) fs)
     = (if name \<in> set ex then [] else outside_excluded ex fs)"
  by (induction fs) (auto simp: outside_excluded_def)

lemma kept_files_of: "kept ex e = outside_excluded ex (files_of e)"
proof (induction e)
  case (File path download_url content)
  show ?case by (simp add: outside_excluded_def)
next
  case (Dir path entries)
  then have m: "map (kept ex) entries = map (\<lambda>e. outside_excluded ex (files_of e)) entries"
    by simp
  show ?case
    unfolding kept.simps files_of.simps outside_excluded_under outside_excluded_concat m
    by (simp add: comp_def)
next
  case (Other ty)
  show ?case by (simp add: outside_excluded_def)
qed

lemma kept_tree_files:
  "concat (map (kept ex) tree) = outside_excluded ex (tree_files tree)"
proof -
  have "kept ex = (\<lambda>e. outside_excluded ex (files_of e))"
    by (rule ext) (rule kept_files_of)
  then show ?thesis
    by (simp add: tree_files_def outside_excluded_concat comp_def)
qed

lemma distinct_dict_update:
  "distinct (map fst d) \<Longrightarrow> distinct (map fst (dict_update d other))"
  unfolding dict_update_def
  by (induction other arbitrary: d) (simp_all add: distinct_update)


lemma map_of_rev_distinct: "distinct (map fst xs) \<Longrightarrow> map_of (rev xs) = map_of xs"
  by (induction xs)
     (auto 4 3 simp: map_add_def intro!: ext split: option.split intro: rev_image_eqI)

lemma map_of_store:
  "map_of (AList.update k v files) ++ map_of (rev ks) = map_of files ++ map_of (rev ((k, v) # ks))"
  by (simp add: update_conv' map_add_upd_left)

lemma fetch_items_walk:
  assumes rp: "repo_path_of env repo_link = Inr rp"
  shows "list_all2 describes items entries \<Longrightarrow>
    (\<forall>p u c. File p u c \<in> set entries \<longrightarrow> downloads env u c) \<Longrightarrow>
    (\<forall>p sub. Dir p sub \<in> set entries \<longrightarrow> last_segment p \<notin> set ex \<longrightarrow>
       (\<forall>h. \<exists>fs h'. fetch_repository_contents d env repo_link branch (JStr p)
                        (JArr (map JStr ex)) h = Some (Inr fs, h')
                    \<and> map_of fs = map_of (rev (concat (map (kept ex) sub)))
                    \<and> distinct (map fst fs))) \<Longrightarrow>
    distinct (map fst files) \<Longrightarrow>
    \<exists>files' h'. fetch_items d env repo_link branch (JArr (map JStr ex)) items files h
                   = Some (Inr files', h')
       \<and> map_of files' = map_of files ++ map_of (rev (concat (map (kept ex) entries)))
       \<and> distinct (map fst files')"
proof (induction arbitrary: files h rule: list_all2_induct)
  case Nil
  then show ?case by simp
next
  case (Cons item items e entries)
  let ?X = "JArr (map JStr ex)"
  from Cons.prems have
    files: "\<forall>p u c. File p u c \<in> set entries \<longrightarrow> downloads env u c" and
    dirs: "\<forall>p sub. Dir p sub \<in> set entries \<longrightarrow> last_segment p \<notin> set ex \<longrightarrow>
       (\<forall>h. \<exists>fs h'. fetch_repository_contents d env repo_link branch (JStr p) ?X h
                        = Some (Inr fs, h')
                    \<and> map_of fs = map_of (rev (concat (map (kept ex) sub)))
                    \<and> distinct (map fst fs))"
    by simp_all
  note rest = Cons.IH [OF files dirs]
  show ?case
  proof (cases e)
    case (File p u c)
    with Cons.hyps have ty: "py_getitem item ''type'' = Inr (JStr ''file'')"
      and pa: "py_getitem item ''path'' = Inr (JStr p)"
      and ur: "py_getitem item ''download_url'' = Inr (JStr u)" by simp_all
    from Cons.prems(1) File have "downloads env u c" by simp
    then obtain response where
      resp: "http env h (get_request (RawUrl (JStr u))) = Inr response" "resp_text response = c"
      unfolding downloads_def by blast
    let ?h1 = "h @ [HttpCall (get_request (RawUrl (JStr u)))]"
    from Cons.prems(3) have "distinct (map fst (AList.update (JStr p) c files))"
      by (simp add: distinct_update)
    from rest [OF this, of ?h1] obtain files' h' where
      run: "fetch_items d env repo_link branch ?X items (AList.update (JStr p) c files) ?h1
              = Some (Inr files', h')" and
      m: "map_of files' = map_of (AList.update (JStr p) c files)
            ++ map_of (rev (concat (map (kept ex) entries)))" and
      di: "distinct (map fst files')" by blast
    from ty pa ur resp run have "fetch_items d env repo_link branch ?X (item # items) files h
        = Some (Inr files', h')"
      by (simp add: requests_def dict_set_def)
    moreover from m File have "map_of files' = map_of files
        ++ map_of (rev (concat (map (kept ex) (e # entries))))"
      by (simp only: map_of_store list.map concat.simps kept.simps append_Cons append_Nil)
    ultimately show ?thesis using di by blast
  next
    case (Dir p sub)
    with Cons.hyps have ty: "py_getitem item ''type'' = Inr (JStr ''dir'')"
      and pa: "py_getitem item ''path'' = Inr (JStr p)" by simp_all
    show ?thesis
    proof (cases "last_segment p \<in> set ex")
      case True
      from rest [OF Cons.prems(3), of h] obtain files' h' where
        run: "fetch_items d env repo_link branch ?X items files h = Some (Inr files', h')" and
        m: "map_of files' = map_of files ++ map_of (rev (concat (map (kept ex) entries)))" and
        di: "distinct (map fst files')" by blast
      from ty pa True run have "fetch_items d env repo_link branch ?X (item # items) files h
          = Some (Inr files', h')"
        by (simp add: is_excluded_names)
      with m di Dir True show ?thesis by simp
    next
      case False
      with Cons.prems(2) Dir obtain fs h1 where
        sub: "fetch_repository_contents d env repo_link branch (JStr p) ?X h = Some (Inr fs, h1)"
        and ms: "map_of fs = map_of (rev (concat (map (kept ex) sub)))"
        and ds: "distinct (map fst fs)"
        by (metis list.set_intros(1))
      from Cons.prems(3) have "distinct (map fst (dict_update files fs))"
        by (rule distinct_dict_update)
      from rest [OF this, of h1] obtain files' h' where
        run: "fetch_items d env repo_link branch ?X items (dict_update files fs) h1
               = Some (Inr files', h')" and
        m: "map_of files' = map_of (dict_update files fs)
              ++ map_of (rev (concat (map (kept ex) entries)))" and
        di: "distinct (map fst files')" by blast
      from ty pa False sub run have "fetch_items d env repo_link branch ?X (item # items) files h
          = Some (Inr files', h')"
        by (simp add: is_excluded_names)
      moreover from ds have "map_of (rev fs) = map_of fs"
        by (rule map_of_rev_distinct)
      with m ms have "map_of files' = map_of files
          ++ map_of (rev (concat (map (kept ex) (e # entries))))"
        using Dir False by (simp add: map_of_dict_update)
      ultimately show ?thesis using di by blast
    qed
  next
    case (Other t)
    with Cons.hyps have ty: "py_getitem item ''type'' = Inr (JStr t)"
      and nd: "t \<noteq> ''dir''" and nf: "t \<noteq> ''file''" by simp_all
    from rest [OF Cons.prems(3), of h] obtain files' h' where
      run: "fetch_items d env repo_link branch ?X items files h = Some (Inr files', h')" and
      m: "map_of files' = map_of files ++ map_of (rev (concat (map (kept ex) entries)))" and
      di: "distinct (map fst files')" by blast
    from ty nd nf run have "fetch_items d env repo_link branch ?X (item # items) files h
        = Some (Inr files', h')"
      by simp
    with m di Other show ?thesis by simp
  qed
qed


lemma fetch_items_tree:
  assumes rp: "repo_path_of env repo_link = Inr rp"
  shows "list_all2 describes items entries \<Longrightarrow>
    \<forall>e\<in>set entries. serves_entry env rp branch e \<Longrightarrow>
    \<forall>e\<in>set entries. height e \<le> d \<Longrightarrow>
    distinct (map fst files) \<Longrightarrow>
    \<exists>files' h'. fetch_items d env repo_link branch (JArr (map JStr ex)) items files h
                   = Some (Inr files', h')
       \<and> map_of files' = map_of files ++ map_of (rev (concat (map (kept ex) entries)))
       \<and> distinct (map fst files')"
proof (induction d arbitrary: items entries files h)
  case 0
  have "\<forall>p u c. File p u c \<in> set entries \<longrightarrow> downloads env u c"
    using "0.prems"(2) by fastforce
  moreover have "\<forall>p sub. Dir p sub \<in> set entries \<longrightarrow> last_segment p \<notin> set ex \<longrightarrow>
       (\<forall>h. \<exists>fs h'. fetch_repository_contents 0 env repo_link branch (JStr p)
                        (JArr (map JStr ex)) h = Some (Inr fs, h')
                    \<and> map_of fs = map_of (rev (concat (map (kept ex) sub)))
                    \<and> distinct (map fst fs))"
    using "0.prems"(3) by fastforce
  ultimately show ?case
    using fetch_items_walk [OF rp "0.prems"(1)] "0.prems"(4) by blast
next
  case (Suc d)
  let ?X = "JArr (map JStr ex)"
  have files: "\<forall>p u c. File p u c \<in> set entries \<longrightarrow> downloads env u c"
    using Suc.prems(2) by fastforce
  have dirs: "\<forall>p sub. Dir p sub \<in> set entries \<longrightarrow> last_segment p \<notin> set ex \<longrightarrow>
       (\<forall>h. \<exists>fs h'. fetch_repository_contents (Suc d) env repo_link branch (JStr p) ?X h
                        = Some (Inr fs, h')
                    \<and> map_of fs = map_of (rev (concat (map (kept ex) sub)))
                    \<and> distinct (map fst fs))"
  proof (intro allI impI)
    fix p sub h
    assume dir: "Dir p sub \<in> set entries"
    with Suc.prems(2) have l: "lists_directory env rp branch (JStr p) sub"
      and s: "\<forall>e\<in>set sub. serves_entry env rp branch e" by fastforce+
    from dir Suc.prems(3) have "height (Dir p sub) \<le> Suc d" by blast
    then have hs: "\<forall>e\<in>set sub. height e \<le> d"
      using height_le_listing [of _ sub] by fastforce
    from l obtain response listing items where
      r: "http env h (get_request (ContentsUrl rp (JStr p) branch)) = Inr response"
         "raise_for_status response = Inr ()" "json_body response = Inr listing"
         "py_iter listing = Inr items" and
      d: "list_all2 describes items sub"
      unfolding lists_directory_def by blast
    let ?h1 = "h @ [HttpCall (get_request (ContentsUrl rp (JStr p) branch))]"
    from Suc.IH [OF d s hs, of "[]" ?h1] obtain fs h' where
      "fetch_items d env repo_link branch ?X items [] ?h1 = Some (Inr fs, h')"
      "map_of fs = map_of (rev (concat (map (kept ex) sub)))" "distinct (map fst fs)"
      by auto
    with rp r show "\<exists>fs h'. fetch_repository_contents (Suc d) env repo_link branch (JStr p) ?X h
                        = Some (Inr fs, h')
                    \<and> map_of fs = map_of (rev (concat (map (kept ex) sub)))
                    \<and> distinct (map fst fs)"
      by (simp add: requests_def)
  qed
  from fetch_items_walk [OF rp Suc.prems(1) files dirs Suc.prems(4)] show ?case .
qed

text \<open>
  Claim C5. Let the hosting API serve a directory tree, and let the exclusion list be a
  list of folder names. Given a depth that the tree does not exceed, the fetch returns a
  FileMap, and its keys are exactly the paths of the files that lie under no directory
  whose name, the last segment of its path, is in the list; each of them is bound to
  the content of the file (to that of the last one, should the API report a path twice).
  The name is tested at every level, and the full path of a directory plays no part.
\<close>

theorem fetch_repository_contents_skips_excluded_folders:
  assumes "repo_path_of env repo_link = Inr repo_path"
    and "serves_tree env repo_path branch tree"
    and "listing_height tree < depth"
  shows "\<exists>files h'.
      fetch_repository_contents depth env repo_link branch (JStr []) (JArr (map JStr excluded)) h
        = Some (Inr files, h')
    \<and> fst ` set files
        = {JStr path | dirs path content.
             (dirs, path, content) \<in> set (tree_files tree) \<and> set dirs \<inter> set excluded = {}}
    \<and> map_of files = map_of (rev (outside_excluded excluded (tree_files tree)))"
proof -
  let ?X = "JArr (map JStr excluded)"
  from assms(3) obtain d where depth: "depth = Suc d" and d: "listing_height tree \<le> d"
    by (cases depth) auto
  from assms(2) have l: "lists_directory env repo_path branch (JStr []) tree"
    and s: "\<forall>e\<in>set tree. serves_entry env repo_path branch e"
    by (simp_all add: serves_tree_def)
  from d have hs: "\<forall>e\<in>set tree. height e \<le> d"
    using height_le_listing [of _ tree] by (fastforce simp: listing_height_def)
  from l obtain response listing items where
    r: "http env h (get_request (ContentsUrl repo_path (JStr []) branch)) = Inr response"
       "raise_for_status response = Inr ()" "json_body response = Inr listing"
       "py_iter listing = Inr items" and
    ds: "list_all2 describes items tree"
    unfolding lists_directory_def by blast
  let ?h1 = "h @ [HttpCall (get_request (ContentsUrl repo_path (JStr []) branch))]"
  from fetch_items_tree [OF assms(1) ds s hs, of "[]" excluded ?h1] obtain files h' where
    run: "fetch_items d env repo_link branch ?X items [] ?h1 = Some (Inr files, h')" and
    m: "map_of files = map_of (rev (concat (map (kept excluded) tree)))"
    by auto
  from assms(1) r run depth have
    "fetch_repository_contents depth env repo_link branch (JStr []) ?X h = Some (Inr files, h')"
    by (simp add: requests_def)
  moreover from m have m': "map_of files = map_of (rev (outside_excluded excluded (tree_files tree)))"
    by (simp add: kept_tree_files)
  moreover have "fst ` set files
        = {JStr path | dirs path content.
             (dirs, path, content) \<in> set (tree_files tree) \<and> set dirs \<inter> set excluded = {}}"
  proof -
    have "fst ` set files = dom (map_of files)"
      by (simp add: dom_map_of_conv_image_fst)
    also have "\<dots> = fst ` set (outside_excluded excluded (tree_files tree))"
      by (simp add: m' dom_map_of_conv_image_fst)
    also have "\<dots> = {JStr path | dirs path content.
             (dirs, path, content) \<in> set (tree_files tree) \<and> set dirs \<inter> set excluded = {}}"
      by (force simp: outside_excluded_def image_iff)
    finally show ?thesis .
  qed
  ultimately show ?thesis by blast
qed


theorem fetch_repository_contents_skips_excluded_folders_witness:
  "repo_path_of tree_hosting (JStr ''https://github.com/o/r'') = Inr ''o/r''
   \<and> serves_tree tree_hosting ''o/r'' (JStr ''main'') sample_root
   \<and> listing_height sample_root < Suc (Suc (Suc 0))
   \<and> fst (the (fetch_repository_contents (Suc (Suc (Suc 0))) tree_hosting
                  (JStr ''https://github.com/o/r'') (JStr ''main'') (JStr [])
                  (JArr (map JStr [''node_modules''])) []))
       = Inr [(JStr ''src/a.py'', ''print(1)''), (JStr ''README.md'', ''hi'')]
   \<and> (\<exists>files h'.
        fetch_repository_contents (Suc (Suc (Suc 0))) tree_hosting
          (JStr ''https://github.com/o/r'') (JStr ''main'') (JStr [])
          (JArr (map JStr [''node_modules''])) [] = Some (Inr files, h')
      \<and> fst ` set files
          = {JStr path | dirs path content.
               (dirs, path, content) \<in> set (tree_files sample_root)
               \<and> set dirs \<inter> set [''node_modules''] = {}}
      \<and> map_of files
          = map_of (rev (outside_excluded [''node_modules''] (tree_files sample_root))))"
proof -
  have rp: "repo_path_of tree_hosting (JStr ''https://github.com/o/r'') = Inr ''o/r''"
    by (simp add: tree_hosting_def strip_slash_def)
  have served: "serves_tree tree_hosting ''o/r'' (JStr ''main'') sample_root"
    by (simp add: serves_tree_def lists_directory_def downloads_def sample_root_def
          tree_hosting_def tree_http_def listing_of_def ok_json_def raw_text_def
          raise_for_status_def get_request_def)
  have shallow: "listing_height sample_root < Suc (Suc (Suc 0))"
    by (simp add: listing_height_def sample_root_def)
  have run: "fst (the (fetch_repository_contents (Suc (Suc (Suc 0))) tree_hosting
                  (JStr ''https://github.com/o/r'') (JStr ''main'') (JStr [])
                  (JArr (map JStr [''node_modules''])) []))
       = Inr [(JStr ''src/a.py'', ''print(1)''), (JStr ''README.md'', ''hi'')]"
    by (simp add: tree_hosting_def tree_http_def sample_root_def listing_of_def ok_json_def
          raw_text_def raise_for_status_def get_request_def requests_def strip_slash_def
          is_excluded_def last_segment_def dict_set_def dict_update_def)
  from fetch_repository_contents_skips_excluded_folders [OF rp served shallow] rp served shallow run
  show ?thesis by blast
qed

text \<open>
  The part of the fail-fast rule that the fetcher does keep: a listing answered with a
  status from 400 to 599 makes \<^verbatim>\<open>fetch_repository_contents\<close> raise, at whatever level,
  and the loop of the enclosing directory passes the exception on, dropping the dict it
  has built so far.
\<close>

theorem listing_failure_aborts_fetch:
  "(repo_path_of env repo_link = Inr repo_path
    \<and> http env h (get_request (ContentsUrl repo_path path branch)) = Inr response
    \<and> 400 \<le> status_code response \<and> status_code response < 600
    \<longrightarrow> fetch_repository_contents (Suc depth) env repo_link branch path exclude_folders h
        = Some (Inl (HTTPError (status_code response)),
                h @ [HttpCall (get_request (ContentsUrl repo_path path branch))]))
   \<and> (py_getitem item ''type'' = Inr (JStr ''dir'')
      \<and> py_getitem item ''path'' = Inr (JStr p)
      \<and> is_excluded exclude_folders (last_segment p) = Inr False
      \<and> fetch_repository_contents depth env repo_link branch (JStr p) exclude_folders h
          = Some (Inl e, h1)
      \<longrightarrow> fetch_items depth env repo_link branch exclude_folders (item # items) files h
          = Some (Inl e, h1))"
  by (simp add: requests_def raise_for_status_def)

theorem listing_failure_aborts_fetch_witness:
  "fetch_repository_contents (Suc 0) (fixed_model ''ok'') (JStr ''https://github.com/o/r'')
      (JStr ''main'') (JStr []) JNull []
     = Some (Inl (HTTPError 404),
             [] @ [HttpCall (get_request (ContentsUrl ''o/r'' (JStr []) (JStr ''main'')))])
   \<and> fetch_items (Suc 0) (fixed_model ''ok'') (JStr ''https://github.com/o/r'') (JStr ''main'')
        JNull [item_of (Dir ''src'' [])] [(JStr ''a.py'', ''print(1)'')] []
     = Some (Inl (HTTPError 404),
             [] @ [HttpCall (get_request (ContentsUrl ''o/r'' (JStr ''src'') (JStr ''main'')))])"
proof -
  have rp: "repo_path_of (fixed_model ''ok'') (JStr ''https://github.com/o/r'') = Inr ''o/r''"
    by (simp add: fixed_model_def strip_slash_def)
  have resp: "http (fixed_model ''ok'') [] (get_request (ContentsUrl ''o/r'' q (JStr ''main'')))
      = Inr not_found" for q
    by (simp add: fixed_model_def)
  have st: "400 \<le> status_code not_found \<and> status_code not_found < 600"
       "status_code not_found = 404"
    by (simp_all add: not_found_def)
  note t = listing_failure_aborts_fetch
    [where env = "fixed_model ''ok''" and repo_link = "JStr ''https://github.com/o/r''"
       and repo_path = "''o/r''" and h = "[]" and branch = "JStr ''main''"
       and response = not_found and exclude_folders = JNull]
  from t [where path = "JStr []" and depth = 0] rp resp st
  have top: "fetch_repository_contents (Suc 0) (fixed_model ''ok'')
      (JStr ''https://github.com/o/r'') (JStr ''main'') (JStr []) JNull []
     = Some (Inl (HTTPError 404),
             [] @ [HttpCall (get_request (ContentsUrl ''o/r'' (JStr []) (JStr ''main'')))])"
    by simp
  from t [where path = "JStr ''src''" and depth = 0] rp resp st
  have sub: "fetch_repository_contents (Suc 0) (fixed_model ''ok'')
      (JStr ''https://github.com/o/r'') (JStr ''main'') (JStr ''src'') JNull []
     = Some (Inl (HTTPError 404),
             [] @ [HttpCall (get_request (ContentsUrl ''o/r'' (JStr ''src'') (JStr ''main'')))])"
    by simp
  have "is_excluded JNull (last_segment ''src'') = Inr False"
    by (simp add: is_excluded_def)
  with sub t [where item = "item_of (Dir ''src'' [])" and p = "''src''" and depth = "Suc 0"
               and e = "HTTPError 404" and items = "[]"
               and files = "[(JStr ''a.py'', ''print(1)'')]"
               and ?h1.0 = "[] @ [HttpCall (get_request (ContentsUrl ''o/r'' (JStr ''src'') (JStr ''main'')))]"]
  have "fetch_items (Suc 0) (fixed_model ''ok'') (JStr ''https://github.com/o/r'') (JStr ''main'')
        JNull [item_of (Dir ''src'' [])] [(JStr ''a.py'', ''print(1)'')] []
     = Some (Inl (HTTPError 404),
             [] @ [HttpCall (get_request (ContentsUrl ''o/r'' (JStr ''src'') (JStr ''main'')))])"
    by simp
  with top show ?thesis by (rule conjI)
qed

end
